theory Spec2Isabelle
  imports Main "HOL-Library.Signed_Division"
begin

section \<open>The four-state integer primitive\<close>

text \<open>
  \<^verbatim>\<open>ConstantEvaluator.cpp\<close> consumes the four-state integer \<^verbatim>\<open>SVInt\<close> and the
  single four-state bit \<^verbatim>\<open>logic_t\<close> through their operators only; their
  declarations (\<^verbatim>\<open>SVInt.h\<close>) are not part of the sources under verification.
  This section gives them an executable model: a bit vector, least significant
  bit first, each bit one of 0, 1, X, Z, with a signedness flag.
\<close>

text \<open>Modelled from the spec: the four-state bit \<^verbatim>\<open>logic_t\<close> (0, 1, X unknown,
  Z high-impedance); its declaration is missing from the sources.\<close>

datatype logic_t = L0 | L1 | Lx | Lz

text \<open>Modelled from the spec: the four-state integer \<^verbatim>\<open>SVInt\<close> (width,
  signedness and per-bit 0/1/X/Z state); its declaration is missing from the
  sources. The width is the length of the bit list.\<close>

datatype SVInt = SVInt (signFlag: bool) (bits: "logic_t list")

text \<open>Modelled from the spec: whether a bit is X or Z.\<close>

definition isUnknown :: "logic_t \<Rightarrow> bool" where
  "isUnknown b = (b = Lx \<or> b = Lz)"

text \<open>Modelled from the spec: whether a value contains an X or Z bit.\<close>

definition hasUnknown :: "SVInt \<Rightarrow> bool" where
  "hasUnknown v = list_ex isUnknown (bits v)"

text \<open>Modelled from the spec: the number a list of definite bits denotes,
  read unsigned.\<close>

fun bits_value :: "logic_t list \<Rightarrow> nat" where
  "bits_value [] = 0"
| "bits_value (b # bs) = (if b = L1 then 1 else 0) + 2 * bits_value bs"

text \<open>Modelled from the spec: the \<open>w\<close> low bits of a number.\<close>

fun value_bits :: "nat \<Rightarrow> nat \<Rightarrow> logic_t list" where
  "value_bits 0 n = []"
| "value_bits (Suc w) n = (if odd n then L1 else L0) # value_bits w (n div 2)"

text \<open>Modelled from the spec: widening a bit list to \<open>w\<close> bits, repeating the
  top bit when the operation is signed and padding with 0 otherwise.\<close>

definition widen :: "nat \<Rightarrow> bool \<Rightarrow> logic_t list \<Rightarrow> logic_t list" where
  "widen w signed bs =
     bs @ replicate (w - length bs) (if signed \<and> bs \<noteq> [] then last bs else L0)"

text \<open>Modelled from the spec: the integer a list of definite bits denotes,
  two's complement when signed.\<close>

definition as_int :: "bool \<Rightarrow> logic_t list \<Rightarrow> int" where
  "as_int signed bs =
     (if signed \<and> bs \<noteq> [] \<and> last bs = L1
      then int (bits_value bs) - 2 ^ length bs
      else int (bits_value bs))"

text \<open>Modelled from the spec: the \<open>w\<close>-bit value of an integer (wrapping).\<close>

definition from_int :: "nat \<Rightarrow> bool \<Rightarrow> int \<Rightarrow> SVInt" where
  "from_int w signed i = SVInt signed (value_bits w (nat (i mod 2 ^ w)))"

text \<open>Modelled from the spec: the value whose bits are all X.\<close>

definition allX :: "nat \<Rightarrow> bool \<Rightarrow> SVInt" where
  "allX w signed = SVInt signed (replicate w Lx)"

text \<open>Modelled from the spec: the common width and signedness of a binary
  operation: the wider width; signed only when both operands are.\<close>

definition common_width :: "SVInt \<Rightarrow> SVInt \<Rightarrow> nat" where
  "common_width l r = max (length (bits l)) (length (bits r))"

definition common_sign :: "SVInt \<Rightarrow> SVInt \<Rightarrow> bool" where
  "common_sign l r = (signFlag l \<and> signFlag r)"

text \<open>Modelled from the spec: an operand read as an integer at the common
  width and signedness.\<close>

definition operand :: "SVInt \<Rightarrow> SVInt \<Rightarrow> SVInt \<Rightarrow> int" where
  "operand l r v =
     as_int (common_sign l r) (widen (common_width l r) (common_sign l r) (bits v))"

text \<open>Modelled from the spec: four-state arithmetic (\<^verbatim>\<open>+ - * / %\<close>): an X or Z
  bit in either operand, or an undefined result, makes every result bit X.\<close>

definition arithmetic :: "(int \<Rightarrow> int \<Rightarrow> int option) \<Rightarrow> SVInt \<Rightarrow> SVInt \<Rightarrow> SVInt" where
  "arithmetic f l r =
     (if hasUnknown l \<or> hasUnknown r then allX (common_width l r) (common_sign l r)
      else case f (operand l r l) (operand l r r) of
             None \<Rightarrow> allX (common_width l r) (common_sign l r)
           | Some i \<Rightarrow> from_int (common_width l r) (common_sign l r) i)"

definition SVInt_plus :: "SVInt \<Rightarrow> SVInt \<Rightarrow> SVInt" where
  "SVInt_plus = arithmetic (\<lambda>a b. Some (a + b))"

definition SVInt_minus :: "SVInt \<Rightarrow> SVInt \<Rightarrow> SVInt" where
  "SVInt_minus = arithmetic (\<lambda>a b. Some (a - b))"

definition SVInt_times :: "SVInt \<Rightarrow> SVInt \<Rightarrow> SVInt" where
  "SVInt_times = arithmetic (\<lambda>a b. Some (a * b))"

definition SVInt_divide :: "SVInt \<Rightarrow> SVInt \<Rightarrow> SVInt" where
  "SVInt_divide = arithmetic (\<lambda>a b. if b = 0 then None else Some (a sdiv b))"

definition SVInt_mod :: "SVInt \<Rightarrow> SVInt \<Rightarrow> SVInt" where
  "SVInt_mod = arithmetic (\<lambda>a b. if b = 0 then None else Some (a smod b))"

text \<open>Modelled from the spec: unary minus.\<close>

definition SVInt_neg :: "SVInt \<Rightarrow> SVInt" where
  "SVInt_neg v =
     (if hasUnknown v then allX (length (bits v)) (signFlag v)
      else from_int (length (bits v)) (signFlag v) (- as_int (signFlag v) (bits v)))"

text \<open>Modelled from the spec: the four-state truth tables of the bitwise
  operators.\<close>

fun logic_not :: "logic_t \<Rightarrow> logic_t" where
  "logic_not L0 = L1"
| "logic_not L1 = L0"
| "logic_not _ = Lx"

fun logic_and :: "logic_t \<Rightarrow> logic_t \<Rightarrow> logic_t" where
  "logic_and L0 _ = L0"
| "logic_and _ L0 = L0"
| "logic_and L1 L1 = L1"
| "logic_and _ _ = Lx"

fun logic_or :: "logic_t \<Rightarrow> logic_t \<Rightarrow> logic_t" where
  "logic_or L1 _ = L1"
| "logic_or _ L1 = L1"
| "logic_or L0 L0 = L0"
| "logic_or _ _ = Lx"

fun logic_xor :: "logic_t \<Rightarrow> logic_t \<Rightarrow> logic_t" where
  "logic_xor L0 L0 = L0"
| "logic_xor L0 L1 = L1"
| "logic_xor L1 L0 = L1"
| "logic_xor L1 L1 = L0"
| "logic_xor _ _ = Lx"

text \<open>Modelled from the spec: a bitwise binary operator, bit by bit at the
  common width.\<close>

definition bitwise :: "(logic_t \<Rightarrow> logic_t \<Rightarrow> logic_t) \<Rightarrow> SVInt \<Rightarrow> SVInt \<Rightarrow> SVInt" where
  "bitwise f l r =
     SVInt (common_sign l r)
       (map2 f (widen (common_width l r) (common_sign l r) (bits l))
               (widen (common_width l r) (common_sign l r) (bits r)))"

definition SVInt_and :: "SVInt \<Rightarrow> SVInt \<Rightarrow> SVInt" where
  "SVInt_and = bitwise logic_and"

definition SVInt_or :: "SVInt \<Rightarrow> SVInt \<Rightarrow> SVInt" where
  "SVInt_or = bitwise logic_or"

definition SVInt_xor :: "SVInt \<Rightarrow> SVInt \<Rightarrow> SVInt" where
  "SVInt_xor = bitwise logic_xor"

definition xnor :: "SVInt \<Rightarrow> SVInt \<Rightarrow> SVInt" where
  "xnor = bitwise (\<lambda>a b. logic_not (logic_xor a b))"

text \<open>Modelled from the spec: bitwise complement.\<close>

definition SVInt_complement :: "SVInt \<Rightarrow> SVInt" where
  "SVInt_complement v = SVInt (signFlag v) (map logic_not (bits v))"

text \<open>Modelled from the spec: the reduction operators, collapsing the whole
  vector to one bit.\<close>

definition reductionAnd :: "SVInt \<Rightarrow> logic_t" where
  "reductionAnd v = foldr logic_and (bits v) L1"

definition reductionOr :: "SVInt \<Rightarrow> logic_t" where
  "reductionOr v = foldr logic_or (bits v) L0"

definition reductionXor :: "SVInt \<Rightarrow> logic_t" where
  "reductionXor v = foldr logic_xor (bits v) L0"

text \<open>Modelled from the spec: the tri-state comparisons: X when either
  operand contains an X or Z bit, otherwise the comparison of the values.\<close>

definition comparison :: "(int \<Rightarrow> int \<Rightarrow> bool) \<Rightarrow> SVInt \<Rightarrow> SVInt \<Rightarrow> logic_t" where
  "comparison f l r =
     (if hasUnknown l \<or> hasUnknown r then Lx
      else if f (operand l r l) (operand l r r) then L1 else L0)"

definition SVInt_eq :: "SVInt \<Rightarrow> SVInt \<Rightarrow> logic_t" where
  "SVInt_eq = comparison (\<lambda>a b. a = b)"

definition SVInt_ne :: "SVInt \<Rightarrow> SVInt \<Rightarrow> logic_t" where
  "SVInt_ne = comparison (\<lambda>a b. a \<noteq> b)"

definition SVInt_ge :: "SVInt \<Rightarrow> SVInt \<Rightarrow> logic_t" where
  "SVInt_ge = comparison (\<lambda>a b. a \<ge> b)"

definition SVInt_gt :: "SVInt \<Rightarrow> SVInt \<Rightarrow> logic_t" where
  "SVInt_gt = comparison (\<lambda>a b. a > b)"

definition SVInt_le :: "SVInt \<Rightarrow> SVInt \<Rightarrow> logic_t" where
  "SVInt_le = comparison (\<lambda>a b. a \<le> b)"

definition SVInt_lt :: "SVInt \<Rightarrow> SVInt \<Rightarrow> logic_t" where
  "SVInt_lt = comparison (\<lambda>a b. a < b)"

text \<open>Modelled from the spec: case equality \<^verbatim>\<open>exactlyEqual\<close>: an exact match of
  the bit patterns, X and Z positions included, always a definite answer.\<close>

definition exactlyEqual :: "SVInt \<Rightarrow> SVInt \<Rightarrow> bool" where
  "exactlyEqual l r =
     (widen (common_width l r) (common_sign l r) (bits l) =
      widen (common_width l r) (common_sign l r) (bits r))"

text \<open>Modelled from the spec: the conversions between \<^verbatim>\<open>bool\<close>, \<^verbatim>\<open>logic_t\<close> and
  \<^verbatim>\<open>SVInt\<close>: a bit is true only when it is 1; the logical truth of an integer is
  X when it contains an X or Z bit, otherwise whether it is non-zero; a bit
  converts to a one-bit unsigned integer.\<close>

definition logic_of_bool :: "bool \<Rightarrow> logic_t" where
  "logic_of_bool b = (if b then L1 else L0)"

definition bool_of_logic :: "logic_t \<Rightarrow> bool" where
  "bool_of_logic b = (b = L1)"

definition logic_of_SVInt :: "SVInt \<Rightarrow> logic_t" where
  "logic_of_SVInt v =
     (if hasUnknown v then Lx else if bits_value (bits v) \<noteq> 0 then L1 else L0)"

definition SVInt_of_logic :: "logic_t \<Rightarrow> SVInt" where
  "SVInt_of_logic b = SVInt False [b]"

text \<open>Modelled from the spec: logical NOT of an integer.\<close>

definition SVInt_lnot :: "SVInt \<Rightarrow> logic_t" where
  "SVInt_lnot v = logic_not (logic_of_SVInt v)"

section \<open>Values, nodes and the evaluator's state\<close>

text \<open>Modelled from the spec: \<^verbatim>\<open>ConstantValue\<close>, either \<open>Empty\<close> (what \<^verbatim>\<open>nullptr\<close>
  converts to, and what a default-constructed value is) or an integer; its
  declaration is missing from the sources.\<close>

datatype ConstantValue = Empty | Integer SVInt

text \<open>The ways an evaluation aborts instead of returning: a failed \<^verbatim>\<open>ASSERT\<close>,
  a \<^verbatim>\<open>DEFAULT_UNREACHABLE\<close> switch arm, \<^verbatim>\<open>integer()\<close> applied to an \<open>Empty\<close>
  value, a pointer that designates no live object, and an index past the end
  of an array.\<close>

datatype fault =
  AssertionFailed | Unreachable | BadVariantAccess | InvalidPointer | IndexOutOfRange

text \<open>Modelled from the spec: \<^verbatim>\<open>ConstantValue::integer()\<close>, whose declaration is
  missing from the sources: the integer a value carries; operating on \<open>Empty\<close>
  is a fault.\<close>

definition integer :: "ConstantValue \<Rightarrow> fault + SVInt" where
  "integer cv = (case cv of Empty \<Rightarrow> Inl BadVariantAccess | Integer v \<Rightarrow> Inr v)"

text \<open>A \<^verbatim>\<open>const Symbol*\<close> is the identity of a declaration; a subroutine symbol is
  referred to by its address in the semantic model.\<close>

type_synonym Symbol = nat

text \<open>Modelled from the spec: the operator sub-kind \<^verbatim>\<open>SyntaxKind\<close> carried by
  unary, binary and assignment nodes (the kinds this file switches on, and the
  shift kinds it leaves unimplemented); its declaration is missing from the
  sources.\<close>

datatype SyntaxKind =
    UnaryPlusExpression | UnaryMinusExpression | UnaryBitwiseNotExpression
  | UnaryBitwiseAndExpression | UnaryBitwiseOrExpression | UnaryBitwiseXorExpression
  | UnaryBitwiseNandExpression | UnaryBitwiseNorExpression | UnaryBitwiseXnorExpression
  | UnaryLogicalNotExpression
  | AddExpression | SubtractExpression | MultiplyExpression | DivideExpression
  | ModExpression | BinaryAndExpression | BinaryOrExpression | BinaryXorExpression
  | BinaryXnorExpression | EqualityExpression | InequalityExpression
  | CaseEqualityExpression | CaseInequalityExpression | GreaterThanEqualExpression
  | GreaterThanExpression | LessThanEqualExpression | LessThanExpression
  | LogicalShiftLeftExpression | LogicalShiftRightExpression
  | AssignmentExpression | AddAssignmentExpression | SubtractAssignmentExpression
  | MultiplyAssignmentExpression | DivideAssignmentExpression | ModAssignmentExpression
  | AndAssignmentExpression | OrAssignmentExpression | XorAssignmentExpression
  | LogicalLeftShiftAssignmentExpression | LogicalRightShiftAssignmentExpression
  | ArithmeticLeftShiftAssignmentExpression | ArithmeticRightShiftAssignmentExpression

text \<open>Modelled from the spec: the bound tree (\<^verbatim>\<open>BoundNode\<close> and its subclasses,
  whose declarations are missing from the sources). \<open>BadNode\<close> is a node for
  which \<^verbatim>\<open>bad()\<close> holds. A parameter node carries the value recorded on its
  symbol; a call node carries the address of its subroutine symbol and its
  argument expressions.\<close>

datatype BoundNode =
    BadNode
  | Literal ConstantValue
  | Parameter ConstantValue
  | Variable Symbol
  | UnaryExpression SyntaxKind BoundNode
  | BinaryExpression SyntaxKind BoundNode BoundNode
  | AssignmentExpr SyntaxKind BoundNode BoundNode
  | CallExpression nat "BoundNode list"
  | StatementList "BoundNode list"
  | ReturnStatement BoundNode

text \<open>Modelled from the spec: a subroutine symbol exposes its ordered formal
  parameters and its body; the semantic model maps the address of a subroutine
  symbol to it, so that a body may call its own subroutine.\<close>

record SubroutineSymbol =
  arguments :: "Symbol list"
  body :: BoundNode

type_synonym SemanticModel = "nat \<Rightarrow> SubroutineSymbol"

text \<open>Modelled from the spec: a frame (\<^verbatim>\<open>ConstantEvaluator.h\<close> is missing from
  the sources): the bindings of one invocation and a pointer to the caller's
  frame. A frame pointer is the index of the frame among the live frames, or
  \<open>None\<close> for \<^verbatim>\<open>nullptr\<close>.\<close>

record Frame =
  temporaries :: "Symbol \<rightharpoonup> ConstantValue"
  parent :: "nat option"

text \<open>The evaluator: the live frames (\<^verbatim>\<open>rootFrame\<close> at index 0, then the
  \<^verbatim>\<open>newFrame\<close> locals of the active calls of \<^verbatim>\<open>evaluateCall\<close>, innermost last)
  and the \<^verbatim>\<open>currentFrame\<close> pointer.\<close>

record ConstantEvaluator =
  frames :: "Frame list"
  currentFrame :: "nat option"

text \<open>Modelled from the spec: an lvalue is a handle on a storage slot of a
  frame's binding table: the frame and the key of the slot.\<close>

record LValue =
  storage :: "nat \<times> Symbol"

text \<open>An evaluation step reads and updates the evaluator. It returns a value
  and the new state (\<open>Inr\<close>), aborts with a fault (\<open>Inl\<close>), or has not returned
  within the recursion depth it was given (\<open>None\<close>).\<close>

type_synonym 'a eval = "ConstantEvaluator \<Rightarrow> (fault + 'a \<times> ConstantEvaluator) option"

definition ret :: "'a \<Rightarrow> 'a eval" where
  "ret a = (\<lambda>s. Some (Inr (a, s)))"

definition throw :: "fault \<Rightarrow> 'a eval" where
  "throw e = (\<lambda>s. Some (Inl e))"

definition bind :: "'a eval \<Rightarrow> ('a \<Rightarrow> 'b eval) \<Rightarrow> 'b eval" where
  "bind m f = (\<lambda>s. case m s of
       None \<Rightarrow> None
     | Some (Inl e) \<Rightarrow> Some (Inl e)
     | Some (Inr (a, s')) \<Rightarrow> f a s')"

definition lift :: "fault + 'a \<Rightarrow> 'a eval" where
  "lift r = (case r of Inl e \<Rightarrow> throw e | Inr a \<Rightarrow> ret a)"

text \<open>\<^verbatim>\<open>ConstantEvaluator::ConstantEvaluator()\<close>: the root frame is current.\<close>

definition ConstantEvaluator_new :: ConstantEvaluator where
  "ConstantEvaluator_new =
     \<lparr>frames = [\<lparr>temporaries = Map.empty, parent = None\<rparr>], currentFrame = Some 0\<rparr>"

subsection \<open>Slots of a binding table\<close>

text \<open>The evaluator after the slot of \<open>key\<close> in the frame at address \<open>a\<close> has
  been given the value \<open>v\<close>.\<close>

definition assign :: "nat \<Rightarrow> Symbol \<Rightarrow> ConstantValue \<Rightarrow> ConstantEvaluator \<Rightarrow> ConstantEvaluator" where
  "assign a key v s =
     s\<lparr>frames := (frames s)[a := (frames s ! a)
          \<lparr>temporaries := (temporaries (frames s ! a))(key \<mapsto> v)\<rparr>]\<rparr>"

text \<open>\<^verbatim>\<open>&frame.temporaries[key]\<close> for the frame at address \<open>a\<close>: the subscript
  operator of the table inserts a default-constructed (\<open>Empty\<close>) value when the
  key has no slot yet, and yields the slot.\<close>

definition subscript :: "nat \<Rightarrow> Symbol \<Rightarrow> LValue eval" where
  "subscript a key = (\<lambda>s.
     if a < length (frames s) then
       (case temporaries (frames s ! a) key of
          Some v \<Rightarrow> Some (Inr (\<lparr>storage = (a, key)\<rparr>, s))
        | None \<Rightarrow> Some (Inr (\<lparr>storage = (a, key)\<rparr>, assign a key Empty s)))
     else Some (Inl InvalidPointer))"

text \<open>\<^verbatim>\<open>&currentFrame->temporaries[key]\<close>.\<close>

definition currentSlot :: "Symbol \<Rightarrow> LValue eval" where
  "currentSlot key = (\<lambda>s.
     case currentFrame s of
       None \<Rightarrow> Some (Inl InvalidPointer)
     | Some a \<Rightarrow> subscript a key s)"

text \<open>\<^verbatim>\<open>LValue::load\<close> and \<^verbatim>\<open>LValue::store\<close>: read and overwrite the slot the
  handle designates; a handle on a slot that does not exist is an invalid
  pointer.\<close>

definition load :: "LValue \<Rightarrow> ConstantValue eval" where
  "load lv = (\<lambda>s.
     if fst (storage lv) < length (frames s) then
       (case temporaries (frames s ! fst (storage lv)) (snd (storage lv)) of
          Some v \<Rightarrow> Some (Inr (v, s))
        | None \<Rightarrow> Some (Inl InvalidPointer))
     else Some (Inl InvalidPointer))"

definition store :: "LValue \<Rightarrow> ConstantValue \<Rightarrow> unit eval" where
  "store lv v = (\<lambda>s.
     if fst (storage lv) < length (frames s) then
       (case temporaries (frames s ! fst (storage lv)) (snd (storage lv)) of
          Some _ \<Rightarrow> Some (Inr ((), assign (fst (storage lv)) (snd (storage lv)) v s))
        | None \<Rightarrow> Some (Inl InvalidPointer))
     else Some (Inl InvalidPointer))"

section \<open>The evaluator\<close>

text \<open>Each \<^verbatim>\<open>evaluateX\<close> of the source calls \<^verbatim>\<open>evaluate\<close> on child nodes; here it
  takes that recursive evaluator as its first argument \<open>ev\<close>. References bound
  to the result of \<^verbatim>\<open>integer()\<close> are read as the value they refer to.\<close>

definition createTemporary :: "Symbol \<Rightarrow> LValue eval" where
  "createTemporary key =
     bind (currentSlot key) (\<lambda>result.
     bind (load result) (\<lambda>v.
       if v \<noteq> Empty then throw AssertionFailed else ret result))"

definition evaluateBool :: "(BoundNode \<Rightarrow> ConstantValue eval) \<Rightarrow> BoundNode \<Rightarrow> bool eval" where
  "evaluateBool ev tree =
     bind (ev tree) (\<lambda>cv.
       if cv = Empty then ret False
       else bind (lift (integer cv)) (\<lambda>i. ret (bool_of_logic (logic_of_SVInt i))))"

definition evaluateLiteral :: "ConstantValue \<Rightarrow> ConstantValue eval" where
  "evaluateLiteral v = ret v"

definition evaluateParameter :: "ConstantValue \<Rightarrow> ConstantValue eval" where
  "evaluateParameter v = ret v"

definition evaluateVariable :: "Symbol \<Rightarrow> ConstantValue eval" where
  "evaluateVariable symbol =
     bind (currentSlot symbol) (\<lambda>slot.
     bind (load slot) (\<lambda>val.
       if val = Empty then throw AssertionFailed else ret val))"

definition evaluateUnary ::
  "(BoundNode \<Rightarrow> ConstantValue eval) \<Rightarrow> SyntaxKind \<Rightarrow> BoundNode \<Rightarrow> ConstantValue eval" where
  "evaluateUnary ev kind operand_node =
     bind (ev operand_node) (\<lambda>cv.
     bind (lift (integer cv)) (\<lambda>v.
       case kind of
         UnaryPlusExpression \<Rightarrow> ret (Integer v)
       | UnaryMinusExpression \<Rightarrow> ret (Integer (SVInt_neg v))
       | UnaryBitwiseNotExpression \<Rightarrow> ret (Integer (SVInt_complement v))
       | UnaryBitwiseAndExpression \<Rightarrow> ret (Integer (SVInt_of_logic (reductionAnd v)))
       | UnaryBitwiseOrExpression \<Rightarrow> ret (Integer (SVInt_of_logic (reductionOr v)))
       | UnaryBitwiseXorExpression \<Rightarrow> ret (Integer (SVInt_of_logic (reductionXor v)))
       | UnaryBitwiseNandExpression \<Rightarrow>
           ret (Integer (SVInt_of_logic (logic_not (reductionAnd v))))
       | UnaryBitwiseNorExpression \<Rightarrow>
           ret (Integer (SVInt_of_logic (logic_not (reductionOr v))))
       | UnaryBitwiseXnorExpression \<Rightarrow>
           ret (Integer (SVInt_of_logic (logic_not (reductionXor v))))
       | UnaryLogicalNotExpression \<Rightarrow> ret (Integer (SVInt_of_logic (SVInt_lnot v)))
       | _ \<Rightarrow> throw Unreachable))"

definition evaluateBinary ::
  "(BoundNode \<Rightarrow> ConstantValue eval) \<Rightarrow> SyntaxKind \<Rightarrow> BoundNode \<Rightarrow> BoundNode
     \<Rightarrow> ConstantValue eval" where
  "evaluateBinary ev kind left right =
     bind (ev left) (\<lambda>lcv.
     bind (lift (integer lcv)) (\<lambda>l.
     bind (ev right) (\<lambda>rcv.
     bind (lift (integer rcv)) (\<lambda>r.
       case kind of
         AddExpression \<Rightarrow> ret (Integer (SVInt_plus l r))
       | SubtractExpression \<Rightarrow> ret (Integer (SVInt_minus l r))
       | MultiplyExpression \<Rightarrow> ret (Integer (SVInt_times l r))
       | DivideExpression \<Rightarrow> ret (Integer (SVInt_divide l r))
       | ModExpression \<Rightarrow> ret (Integer (SVInt_mod l r))
       | BinaryAndExpression \<Rightarrow> ret (Integer (SVInt_and l r))
       | BinaryOrExpression \<Rightarrow> ret (Integer (SVInt_or l r))
       | BinaryXorExpression \<Rightarrow> ret (Integer (SVInt_xor l r))
       | BinaryXnorExpression \<Rightarrow> ret (Integer (xnor l r))
       | EqualityExpression \<Rightarrow> ret (Integer (SVInt_of_logic (SVInt_eq l r)))
       | InequalityExpression \<Rightarrow> ret (Integer (SVInt_of_logic (SVInt_ne l r)))
       | CaseEqualityExpression \<Rightarrow>
           ret (Integer (SVInt_of_logic (logic_of_bool (exactlyEqual l r))))
       | CaseInequalityExpression \<Rightarrow>
           ret (Integer (SVInt_of_logic (logic_of_bool (\<not> exactlyEqual l r))))
       | GreaterThanEqualExpression \<Rightarrow> ret (Integer (SVInt_of_logic (SVInt_ge l r)))
       | GreaterThanExpression \<Rightarrow> ret (Integer (SVInt_of_logic (SVInt_gt l r)))
       | LessThanEqualExpression \<Rightarrow> ret (Integer (SVInt_of_logic (SVInt_le l r)))
       | LessThanExpression \<Rightarrow> ret (Integer (SVInt_of_logic (SVInt_lt l r)))
       | _ \<Rightarrow> throw Unreachable))))"

definition evaluateLValue :: "BoundNode \<Rightarrow> (bool \<times> LValue) eval" where
  "evaluateLValue expr =
     (case expr of
        Variable symbol \<Rightarrow> bind (currentSlot symbol) (\<lambda>slot. ret (True, slot))
      | _ \<Rightarrow> throw Unreachable)"

definition evaluateAssignment ::
  "(BoundNode \<Rightarrow> ConstantValue eval) \<Rightarrow> SyntaxKind \<Rightarrow> BoundNode \<Rightarrow> BoundNode
     \<Rightarrow> ConstantValue eval" where
  "evaluateAssignment ev kind left right =
     bind (evaluateLValue left) (\<lambda>(ok, lvalue).
       if \<not> ok then ret Empty
       else
         bind (ev right) (\<lambda>rvalue.
         bind (ev left) (\<lambda>lcv.
         bind (lift (integer lcv)) (\<lambda>l.
         bind (lift (integer rvalue)) (\<lambda>r.
         bind (case kind of
                 AssignmentExpression \<Rightarrow> store lvalue rvalue
               | AddAssignmentExpression \<Rightarrow> store lvalue (Integer (SVInt_plus l r))
               | SubtractAssignmentExpression \<Rightarrow> store lvalue (Integer (SVInt_minus l r))
               | MultiplyAssignmentExpression \<Rightarrow> store lvalue (Integer (SVInt_times l r))
               | DivideAssignmentExpression \<Rightarrow> store lvalue (Integer (SVInt_divide l r))
               | ModAssignmentExpression \<Rightarrow> store lvalue (Integer (SVInt_mod l r))
               | AndAssignmentExpression \<Rightarrow> store lvalue (Integer (SVInt_and l r))
               | OrAssignmentExpression \<Rightarrow> store lvalue (Integer (SVInt_or l r))
               | XorAssignmentExpression \<Rightarrow> store lvalue (Integer (SVInt_xor l r))
               | _ \<Rightarrow> throw Unreachable) (\<lambda>_.
           load lvalue))))))"

text \<open>The local \<^verbatim>\<open>Frame newFrame { currentFrame }\<close> of \<^verbatim>\<open>evaluateCall\<close>: a new
  frame object, allocated above the live ones, whose parent is the current
  frame; and its destruction when \<^verbatim>\<open>evaluateCall\<close> returns.\<close>

definition newFrame :: "nat eval" where
  "newFrame = (\<lambda>s. Some (Inr (length (frames s),
     s\<lparr>frames := frames s @ [\<lparr>temporaries = Map.empty, parent = currentFrame s\<rparr>]\<rparr>)))"

definition destroyFrame :: "nat \<Rightarrow> unit eval" where
  "destroyFrame a = (\<lambda>s. Some (Inr ((), s\<lparr>frames := take a (frames s)\<rparr>)))"

definition setCurrentFrame :: "nat option \<Rightarrow> unit eval" where
  "setCurrentFrame p = (\<lambda>s. Some (Inr ((), s\<lparr>currentFrame := p\<rparr>)))"

definition getParent :: "nat \<Rightarrow> nat option eval" where
  "getParent a = (\<lambda>s.
     if a < length (frames s) then Some (Inr (parent (frames s ! a), s))
     else Some (Inl InvalidPointer))"

text \<open>The loop of \<^verbatim>\<open>evaluateCall\<close> from index \<open>i\<close> on, over the formal parameters
  still to bind: \<^verbatim>\<open>newFrame.temporaries[subroutine->arguments[i]] =
  evaluate(expr->arguments[i])\<close>.\<close>

fun bindArguments ::
  "(BoundNode \<Rightarrow> ConstantValue eval) \<Rightarrow> nat \<Rightarrow> Symbol list \<Rightarrow> BoundNode list \<Rightarrow> nat
     \<Rightarrow> unit eval" where
  "bindArguments ev nf [] actuals i = ret ()"
| "bindArguments ev nf (formal # formals) actuals i =
     (if i < length actuals then
        bind (ev (actuals ! i)) (\<lambda>v.
        bind (subscript nf formal) (\<lambda>slot.
        bind (store slot v) (\<lambda>_.
          bindArguments ev nf formals actuals (Suc i))))
      else throw IndexOutOfRange)"

definition evaluateCall ::
  "(BoundNode \<Rightarrow> ConstantValue eval) \<Rightarrow> SubroutineSymbol \<Rightarrow> BoundNode list
     \<Rightarrow> ConstantValue eval" where
  "evaluateCall ev subroutine actuals =
     bind newFrame (\<lambda>nf.
     bind (bindArguments ev nf (arguments subroutine) actuals 0) (\<lambda>_.
     bind (setCurrentFrame (Some nf)) (\<lambda>_.
     bind (ev (body subroutine)) (\<lambda>result.
     bind (getParent nf) (\<lambda>p.
     bind (setCurrentFrame p) (\<lambda>_.
     bind (destroyFrame nf) (\<lambda>_.
       ret result)))))))"

definition evaluateStatementList ::
  "(BoundNode \<Rightarrow> ConstantValue eval) \<Rightarrow> BoundNode list \<Rightarrow> ConstantValue eval" where
  "evaluateStatementList ev list =
     (case list of
        item # _ \<Rightarrow> ev item
      | [] \<Rightarrow> ret Empty)"

definition evaluateReturn ::
  "(BoundNode \<Rightarrow> ConstantValue eval) \<Rightarrow> BoundNode \<Rightarrow> ConstantValue eval" where
  "evaluateReturn ev expr = ev expr"

text \<open>\<^verbatim>\<open>evaluate\<close>, with the depth of recursion it may still use: every call of
  \<^verbatim>\<open>evaluate\<close> on a child node or a subroutine body uses one level.\<close>

primrec evaluate :: "SemanticModel \<Rightarrow> nat \<Rightarrow> BoundNode \<Rightarrow> ConstantValue eval" where
  "evaluate model 0 tree = (\<lambda>s. None)"
| "evaluate model (Suc n) tree =
    (case tree of
       BadNode \<Rightarrow> ret Empty
     | Literal v \<Rightarrow> evaluateLiteral v
     | Parameter v \<Rightarrow> evaluateParameter v
     | Variable symbol \<Rightarrow> evaluateVariable symbol
     | UnaryExpression kind e \<Rightarrow> evaluateUnary (evaluate model n) kind e
     | BinaryExpression kind l r \<Rightarrow> evaluateBinary (evaluate model n) kind l r
     | AssignmentExpr kind l r \<Rightarrow> evaluateAssignment (evaluate model n) kind l r
     | CallExpression f actuals \<Rightarrow> evaluateCall (evaluate model n) (model f) actuals
     | StatementList list \<Rightarrow> evaluateStatementList (evaluate model n) list
     | ReturnStatement e \<Rightarrow> evaluateReturn (evaluate model n) e)"

section \<open>Notions used to state the properties\<close>

text \<open>The value a read of the slot of \<open>x\<close> in a frame sees: the subscript
  operator yields a default-constructed (\<open>Empty\<close>) value for a key that has no
  slot. A symbol is bound in a frame when this value is not \<open>Empty\<close>; this is
  what the assertions of \<^verbatim>\<open>evaluateVariable\<close> and \<^verbatim>\<open>createTemporary\<close> test.\<close>

definition binding :: "Frame \<Rightarrow> Symbol \<Rightarrow> ConstantValue" where
  "binding f x = (case temporaries f x of None \<Rightarrow> Empty | Some v \<Rightarrow> v)"

text \<open>The frame discipline between the state before and the state after an
  evaluation step: the current frame pointer and the number of live frames are
  the same, no frame's parent pointer has changed, and of the frames not in
  \<open>X\<close> only the current one may have changed, and no symbol of any of them
  has become bound or unbound.\<close>

definition preserves :: "nat set \<Rightarrow> ConstantEvaluator \<Rightarrow> ConstantEvaluator \<Rightarrow> bool" where
  "preserves X s s' =
     (currentFrame s' = currentFrame s \<and> length (frames s') = length (frames s) \<and>
      (\<forall>i<length (frames s).
          parent (frames s' ! i) = parent (frames s ! i) \<and>
          (i \<notin> X \<longrightarrow>
             (currentFrame s \<noteq> Some i \<longrightarrow> frames s' ! i = frames s ! i) \<and>
             (\<forall>x. (binding (frames s' ! i) x = Empty) = (binding (frames s ! i) x = Empty)))))"

text \<open>The value \<^verbatim>\<open>evaluateAssignment\<close> stores for an assignment kind, read off
  its switch: the right-hand value for a plain assignment, the combination of
  the left and right integers for a compound one, none for a kind the switch
  does not handle.\<close>

definition stored_value :: "SyntaxKind \<Rightarrow> ConstantValue \<Rightarrow> SVInt \<Rightarrow> SVInt \<Rightarrow> ConstantValue option" where
  "stored_value kind rvalue l r =
     (case kind of
        AssignmentExpression \<Rightarrow> Some rvalue
      | AddAssignmentExpression \<Rightarrow> Some (Integer (SVInt_plus l r))
      | SubtractAssignmentExpression \<Rightarrow> Some (Integer (SVInt_minus l r))
      | MultiplyAssignmentExpression \<Rightarrow> Some (Integer (SVInt_times l r))
      | DivideAssignmentExpression \<Rightarrow> Some (Integer (SVInt_divide l r))
      | ModAssignmentExpression \<Rightarrow> Some (Integer (SVInt_mod l r))
      | AndAssignmentExpression \<Rightarrow> Some (Integer (SVInt_and l r))
      | OrAssignmentExpression \<Rightarrow> Some (Integer (SVInt_or l r))
      | XorAssignmentExpression \<Rightarrow> Some (Integer (SVInt_xor l r))
      | _ \<Rightarrow> None)"

text \<open>The binary operator that corresponds to a compound assignment operator,
  as the specification pairs them (add-assign with add, and so on).\<close>

definition compound_operator :: "SyntaxKind \<Rightarrow> SyntaxKind option" where
  "compound_operator kind =
     (case kind of
        AddAssignmentExpression \<Rightarrow> Some AddExpression
      | SubtractAssignmentExpression \<Rightarrow> Some SubtractExpression
      | MultiplyAssignmentExpression \<Rightarrow> Some MultiplyExpression
      | DivideAssignmentExpression \<Rightarrow> Some DivideExpression
      | ModAssignmentExpression \<Rightarrow> Some ModExpression
      | AndAssignmentExpression \<Rightarrow> Some BinaryAndExpression
      | OrAssignmentExpression \<Rightarrow> Some BinaryOrExpression
      | XorAssignmentExpression \<Rightarrow> Some BinaryXorExpression
      | _ \<Rightarrow> None)"

text \<open>Independence from another frame. \<open>overwrite j g s\<close> is the state \<open>s\<close> with
  the frame at address \<open>j\<close> replaced by \<open>g\<close>; a step is unaffected by the frame
  at \<open>j\<close> when running it after the replacement gives the result of running
  it before, with the same replacement made in the resulting state.\<close>

definition overwrite :: "nat \<Rightarrow> Frame \<Rightarrow> ConstantEvaluator \<Rightarrow> ConstantEvaluator" where
  "overwrite j g s = s\<lparr>frames := (frames s)[j := g]\<rparr>"

definition map_result ::
  "(ConstantEvaluator \<Rightarrow> ConstantEvaluator) \<Rightarrow> (fault + 'a \<times> ConstantEvaluator) option
     \<Rightarrow> (fault + 'a \<times> ConstantEvaluator) option" where
  "map_result h r =
     (case r of
        None \<Rightarrow> None
      | Some (Inl e) \<Rightarrow> Some (Inl e)
      | Some (Inr (a, s)) \<Rightarrow> Some (Inr (a, h s)))"

definition unaffected :: "nat \<Rightarrow> Frame \<Rightarrow> 'a eval \<Rightarrow> ConstantEvaluator \<Rightarrow> bool" where
  "unaffected j g m s = (m (overwrite j g s) = map_result (overwrite j g) (m s))"

text \<open>The call as the specification describes it, to be compared with
  \<^verbatim>\<open>evaluateCall\<close>: the argument expressions are evaluated first, one after the
  other in the order of the formal parameters, each one only while the
  caller's frame is current and the new frame holds no binding; then the
  formal parameters are bound to the values, the new frame becomes current,
  the body is evaluated, and the caller's frame is restored.\<close>

definition in_caller_frame :: "nat option \<Rightarrow> nat \<Rightarrow> 'a eval \<Rightarrow> 'a eval" where
  "in_caller_frame caller nf m = (\<lambda>s.
     if currentFrame s = caller \<and> nf < length (frames s)
        \<and> temporaries (frames s ! nf) = Map.empty
     then m s else Some (Inl AssertionFailed))"

fun evaluateArguments ::
  "(BoundNode \<Rightarrow> ConstantValue eval) \<Rightarrow> nat option \<Rightarrow> nat \<Rightarrow> Symbol list \<Rightarrow> BoundNode list
     \<Rightarrow> nat \<Rightarrow> ConstantValue list eval" where
  "evaluateArguments ev caller nf [] actuals i = ret []"
| "evaluateArguments ev caller nf (formal # formals) actuals i =
     (if i < length actuals then
        bind (in_caller_frame caller nf (ev (actuals ! i))) (\<lambda>v.
        bind (evaluateArguments ev caller nf formals actuals (Suc i)) (\<lambda>vs.
          ret (v # vs)))
      else throw IndexOutOfRange)"

fun bindFormals :: "nat \<Rightarrow> Symbol list \<Rightarrow> ConstantValue list \<Rightarrow> unit eval" where
  "bindFormals nf (formal # formals) (v # vs) =
     bind (subscript nf formal) (\<lambda>slot.
     bind (store slot v) (\<lambda>_.
       bindFormals nf formals vs))"
| "bindFormals nf _ _ = ret ()"

definition callArgumentsFirst ::
  "(BoundNode \<Rightarrow> ConstantValue eval) \<Rightarrow> SubroutineSymbol \<Rightarrow> BoundNode list
     \<Rightarrow> ConstantValue eval" where
  "callArgumentsFirst ev subroutine actuals = (\<lambda>s.
     bind newFrame (\<lambda>nf.
     bind (evaluateArguments ev (currentFrame s) nf (arguments subroutine) actuals 0) (\<lambda>vs.
     bind (bindFormals nf (arguments subroutine) vs) (\<lambda>_.
     bind (setCurrentFrame (Some nf)) (\<lambda>_.
     bind (ev (body subroutine)) (\<lambda>result.
     bind (getParent nf) (\<lambda>p.
     bind (setCurrentFrame p) (\<lambda>_.
     bind (destroyFrame nf) (\<lambda>_.
       ret result)))))))) s)"

text \<open>The binding table after the formal parameters have been bound to values
  in order, and a state with the binding table of one frame replaced.\<close>

fun bound_formals ::
  "(Symbol \<rightharpoonup> ConstantValue) \<Rightarrow> Symbol list \<Rightarrow> ConstantValue list
     \<Rightarrow> (Symbol \<rightharpoonup> ConstantValue)" where
  "bound_formals T (formal # formals) (v # vs) = bound_formals (T(formal \<mapsto> v)) formals vs"
| "bound_formals T _ _ = T"

definition with_temporaries ::
  "nat \<Rightarrow> (Symbol \<rightharpoonup> ConstantValue) \<Rightarrow> ConstantEvaluator \<Rightarrow> ConstantEvaluator" where
  "with_temporaries nf T s = overwrite nf ((frames s ! nf)\<lparr>temporaries := T\<rparr>) s"

section \<open>Basic facts about evaluation steps\<close>

lemma bind_ret [simp]: "bind (ret a) f = f a"
  by (simp add: bind_def ret_def)

lemma bind_throw [simp]: "bind (throw e) f = throw e"
  by (simp add: bind_def throw_def)

lemma ret_apply [simp]: "ret a s = Some (Inr (a, s))"
  by (simp add: ret_def)

lemma throw_apply [simp]: "throw e s = Some (Inl e)"
  by (simp add: throw_def)

lemma lift_integer_Empty [simp]: "lift (integer Empty) = throw BadVariantAccess"
  by (simp add: lift_def integer_def)

lemma lift_integer_Integer [simp]: "lift (integer (Integer v)) = ret v"
  by (simp add: lift_def integer_def)

lemma bind_returns: "m s = Some (Inr (a, s')) \<Longrightarrow> bind m f s = f a s'"
  by (simp add: bind_def)

lemma bind_faults: "m s = Some (Inl e) \<Longrightarrow> bind m f s = Some (Inl e)"
  by (simp add: bind_def)

lemma bind_diverges: "m s = None \<Longrightarrow> bind m f s = None"
  by (simp add: bind_def)

lemma bind_returns_iff:
  "bind m f s = Some (Inr (b, s'')) \<longleftrightarrow>
     (\<exists>a s'. m s = Some (Inr (a, s')) \<and> f a s' = Some (Inr (b, s'')))"
  by (auto simp: bind_def split: option.splits sum.splits)

section \<open>Empty operands\<close>

text \<open>
  C1. The claim is that an operator whose operand evaluates to \<open>Empty\<close> yields
  \<open>Empty\<close> and never faults. The code does not do this: \<^verbatim>\<open>evaluateUnary\<close> and
  \<^verbatim>\<open>evaluateBinary\<close> apply \<^verbatim>\<open>integer()\<close> to the operand's value without testing
  it, as \<^verbatim>\<open>evaluateBool\<close> does. Whenever the operand (the left operand, for a
  binary operator) evaluates to \<open>Empty\<close>, the enclosing expression aborts with
  the fault of \<^verbatim>\<open>integer()\<close>, whatever the operator.
\<close>

theorem empty_operand_faults:
  assumes "evaluate model n e s = Some (Inr (Empty, s'))"
  shows "evaluate model (Suc n) (UnaryExpression kind e) s = Some (Inl BadVariantAccess)
       \<and> evaluate model (Suc n) (BinaryExpression kind' e r) s = Some (Inl BadVariantAccess)"
  using assms by (simp add: evaluateUnary_def evaluateBinary_def bind_returns)

theorem empty_operand_faults_witness:
  "evaluate (\<lambda>f. \<lparr>arguments = [], body = BadNode\<rparr>) (Suc (Suc 0))
     (UnaryExpression UnaryPlusExpression BadNode) ConstantEvaluator_new
   = Some (Inl BadVariantAccess)"
proof -
  have h: "evaluate (\<lambda>f. \<lparr>arguments = [], body = BadNode\<rparr>) (Suc 0) BadNode
             ConstantEvaluator_new = Some (Inr (Empty, ConstantEvaluator_new))"
    by simp
  from empty_operand_faults [OF h] show ?thesis by blast
qed

section \<open>Logical equality and case equality\<close>

lemma bits_value_bound: "bits_value bs < 2 ^ length bs"
  by (induction bs) auto

lemma definite_bit: "\<not> isUnknown b \<Longrightarrow> b = L0 \<or> b = L1"
  by (cases b) (simp_all add: isUnknown_def)

lemma bits_value_inject:
  "length bs = length cs \<Longrightarrow> \<not> list_ex isUnknown bs \<Longrightarrow> \<not> list_ex isUnknown cs \<Longrightarrow>
   bits_value bs = bits_value cs \<Longrightarrow> bs = cs"
proof (induction bs cs rule: list_induct2)
  case Nil
  then show ?case by simp
next
  case (Cons b bs c cs)
  define X Y where "X = bits_value bs" and "Y = bits_value cs"
  from Cons.prems have db: "b = L0 \<or> b = L1" and dc: "c = L0 \<or> c = L1"
    by (simp_all add: definite_bit)
  from Cons.prems have rest: "\<not> list_ex isUnknown bs" "\<not> list_ex isUnknown cs"
    by simp_all
  from Cons.prems(3) have eq:
    "(if b = L1 then 1 else 0) + 2 * X = (if c = L1 then 1 else (0::nat)) + 2 * Y"
    by (simp add: X_def Y_def)
  have "b = c \<and> X = Y"
  proof (cases "b = L1")
    case True
    show ?thesis
    proof (cases "c = L1")
      case True
      with \<open>b = L1\<close> eq show ?thesis by simp
    next
      case False
      with \<open>b = L1\<close> eq have "Suc (2 * X) = 2 * Y" by simp
      then have False by presburger
      then show ?thesis ..
    qed
  next
    case False
    show ?thesis
    proof (cases "c = L1")
      case True
      with \<open>b \<noteq> L1\<close> eq have "2 * X = Suc (2 * Y)" by simp
      then have False by presburger
      then show ?thesis ..
    next
      case False
      with \<open>b \<noteq> L1\<close> eq db dc show ?thesis by auto
    qed
  qed
  with Cons.IH rest show ?case by (simp add: X_def Y_def)
qed

lemma as_int_inject:
  assumes "length bs = length cs" "\<not> list_ex isUnknown bs" "\<not> list_ex isUnknown cs"
    and "as_int sg bs = as_int sg cs"
  shows "bs = cs"
proof -
  define B C P where "B = int (bits_value bs)" and "C = int (bits_value cs)"
    and "P = (2::int) ^ length bs"
  have "int (bits_value bs) < int (2 ^ length bs)" "int (bits_value cs) < int (2 ^ length cs)"
    using bits_value_bound [of bs] bits_value_bound [of cs] by (simp_all only: of_nat_less_iff)
  then have b: "0 \<le> B" "B < P" "0 \<le> C" "C < P"
    using assms(1) by (simp_all add: B_def C_def P_def)
  have "as_int sg bs = B \<or> as_int sg bs = B - P" "as_int sg cs = C \<or> as_int sg cs = C - P"
    using assms(1) by (simp_all add: as_int_def B_def C_def P_def)
  with assms(4) b have "B = C" by linarith
  then have "bits_value bs = bits_value cs" by (simp add: B_def C_def)
  with assms show ?thesis by (simp add: bits_value_inject)
qed

lemma widen_length: "length (widen w sg bs) = max w (length bs)"
  by (simp add: widen_def)

lemma widen_definite:
  assumes "\<not> list_ex isUnknown bs"
  shows "\<not> list_ex isUnknown (widen w sg bs)"
proof -
  have "bs \<noteq> [] \<Longrightarrow> \<not> isUnknown (last bs)"
    using assms last_in_set [of bs] by (auto simp: list_ex_iff)
  moreover have "\<not> isUnknown L0"
    by (simp add: isUnknown_def)
  ultimately show ?thesis
    using assms by (auto simp: widen_def list_ex_iff)
qed

lemma logical_equality_definite:
  assumes "\<not> hasUnknown l" "\<not> hasUnknown r"
  shows "SVInt_eq l r = logic_of_bool (exactlyEqual l r)"
proof -
  let ?w = "common_width l r" and ?sg = "common_sign l r"
  have len: "length (widen ?w ?sg (bits l)) = length (widen ?w ?sg (bits r))"
    by (simp add: widen_length common_width_def)
  have "as_int ?sg (widen ?w ?sg (bits l)) = as_int ?sg (widen ?w ?sg (bits r))
          \<longleftrightarrow> widen ?w ?sg (bits l) = widen ?w ?sg (bits r)"
    using as_int_inject [OF len] assms widen_definite
    by (auto simp: hasUnknown_def)
  with assms show ?thesis
    by (simp add: SVInt_eq_def comparison_def operand_def exactlyEqual_def logic_of_bool_def)
qed

text \<open>
  C7. On operands that contain only definite bits, the logical equality
  expression and the case equality expression evaluate to the same result; and
  there is a value \<open>u\<close> with an X bit for which \<open>u == u\<close> evaluates to the
  undefined bit X while \<open>u === u\<close> evaluates to the definite bit 1. (The two
  comparisons are those of the four-state primitive as the specification
  describes them.)
\<close>

theorem equality_families:
  "(\<forall>l r. \<not> hasUnknown l \<longrightarrow> \<not> hasUnknown r \<longrightarrow>
       evaluate model (Suc (Suc 0))
         (BinaryExpression EqualityExpression (Literal (Integer l)) (Literal (Integer r))) s
     = evaluate model (Suc (Suc 0))
         (BinaryExpression CaseEqualityExpression (Literal (Integer l)) (Literal (Integer r))) s)
   \<and> (\<exists>u. hasUnknown u
        \<and> evaluate model (Suc (Suc 0))
            (BinaryExpression EqualityExpression (Literal (Integer u)) (Literal (Integer u))) s
          = Some (Inr (Integer (SVInt_of_logic Lx), s))
        \<and> evaluate model (Suc (Suc 0))
            (BinaryExpression CaseEqualityExpression (Literal (Integer u)) (Literal (Integer u))) s
          = Some (Inr (Integer (SVInt_of_logic L1), s)))"
proof (intro conjI allI impI)
  fix l r
  assume "\<not> hasUnknown l" "\<not> hasUnknown r"
  then show "evaluate model (Suc (Suc 0))
         (BinaryExpression EqualityExpression (Literal (Integer l)) (Literal (Integer r))) s
     = evaluate model (Suc (Suc 0))
         (BinaryExpression CaseEqualityExpression (Literal (Integer l)) (Literal (Integer r))) s"
    by (simp add: evaluateBinary_def evaluateLiteral_def logical_equality_definite)
next
  have "hasUnknown (SVInt False [Lx])"
    by (simp add: hasUnknown_def isUnknown_def)
  moreover have "SVInt_eq (SVInt False [Lx]) (SVInt False [Lx]) = Lx"
    by (simp add: SVInt_eq_def comparison_def hasUnknown_def isUnknown_def)
  moreover have "exactlyEqual (SVInt False [Lx]) (SVInt False [Lx])"
    by (simp add: exactlyEqual_def)
  ultimately show "\<exists>u. hasUnknown u
        \<and> evaluate model (Suc (Suc 0))
            (BinaryExpression EqualityExpression (Literal (Integer u)) (Literal (Integer u))) s
          = Some (Inr (Integer (SVInt_of_logic Lx), s))
        \<and> evaluate model (Suc (Suc 0))
            (BinaryExpression CaseEqualityExpression (Literal (Integer u)) (Literal (Integer u))) s
          = Some (Inr (Integer (SVInt_of_logic L1), s))"
    by (intro exI [of _ "SVInt False [Lx]"])
       (simp add: evaluateBinary_def evaluateLiteral_def logic_of_bool_def)
qed

theorem equality_families_witness:
  "\<not> hasUnknown (SVInt False [L1, L0]) \<and> \<not> hasUnknown (SVInt False [L1])
   \<and> evaluate (\<lambda>f. \<lparr>arguments = [], body = BadNode\<rparr>) (Suc (Suc 0))
         (BinaryExpression EqualityExpression
            (Literal (Integer (SVInt False [L1, L0]))) (Literal (Integer (SVInt False [L1]))))
         ConstantEvaluator_new
     = evaluate (\<lambda>f. \<lparr>arguments = [], body = BadNode\<rparr>) (Suc (Suc 0))
         (BinaryExpression CaseEqualityExpression
            (Literal (Integer (SVInt False [L1, L0]))) (Literal (Integer (SVInt False [L1]))))
         ConstantEvaluator_new"
proof -
  have d: "\<not> hasUnknown (SVInt False [L1, L0])" "\<not> hasUnknown (SVInt False [L1])"
    by (simp_all add: hasUnknown_def isUnknown_def)
  have "evaluate (\<lambda>f. \<lparr>arguments = [], body = BadNode\<rparr>) (Suc (Suc 0))
         (BinaryExpression EqualityExpression
            (Literal (Integer (SVInt False [L1, L0]))) (Literal (Integer (SVInt False [L1]))))
         ConstantEvaluator_new
     = evaluate (\<lambda>f. \<lparr>arguments = [], body = BadNode\<rparr>) (Suc (Suc 0))
         (BinaryExpression CaseEqualityExpression
            (Literal (Integer (SVInt False [L1, L0]))) (Literal (Integer (SVInt False [L1]))))
         ConstantEvaluator_new"
    by (rule equality_families [THEN conjunct1, rule_format, OF d])
  with d show ?thesis by (intro conjI)
qed

section \<open>Branch conditions\<close>

text \<open>
  C8. For every node, \<^verbatim>\<open>evaluateBool\<close> returns false when the node evaluates to
  \<open>Empty\<close> or to an integer that contains an X or Z bit, and otherwise returns
  whether the integer is non-zero (its definite logical truth). A fault or a
  missing result of the evaluation is passed on.
\<close>

theorem evaluateBool_result:
  "evaluateBool (evaluate model n) tree s =
     (case evaluate model n tree s of
        None \<Rightarrow> None
      | Some (Inl e) \<Rightarrow> Some (Inl e)
      | Some (Inr (cv, s')) \<Rightarrow>
          Some (Inr ((case cv of
                        Empty \<Rightarrow> False
                      | Integer v \<Rightarrow> \<not> hasUnknown v \<and> bits_value (bits v) \<noteq> 0), s')))"
  by (auto simp: evaluateBool_def bind_def bool_of_logic_def logic_of_SVInt_def
           split: option.splits sum.splits ConstantValue.splits)

section \<open>Statement lists\<close>

text \<open>
  C9. Evaluating a non-empty statement list is evaluating its first statement:
  the result and the resulting evaluator state are those of the first
  statement alone, whatever statements follow it, so the statements after the
  first are never evaluated and have no effect.
\<close>

theorem statement_list_first_only:
  "evaluate model (Suc n) (StatementList (item # rest)) s = evaluate model n item s"
  by (simp add: evaluateStatementList_def)

section \<open>Frames and slots\<close>

lemma preserves_refl [simp]: "preserves X s s"
  by (simp add: preserves_def)

lemma preserves_trans:
  "preserves X s s' \<Longrightarrow> preserves X s' s'' \<Longrightarrow> preserves X s s''"
  unfolding preserves_def by (intro conjI allI impI) simp_all

lemma preserves_mono: "preserves X s s' \<Longrightarrow> X \<subseteq> Y \<Longrightarrow> preserves Y s s'"
  unfolding preserves_def by blast

lemma currentFrame_assign [simp]: "currentFrame (assign a k v s) = currentFrame s"
  by (simp add: assign_def)

lemma length_frames_assign [simp]: "length (frames (assign a k v s)) = length (frames s)"
  by (simp add: assign_def)

lemma frames_assign_other [simp]: "i \<noteq> a \<Longrightarrow> frames (assign a k v s) ! i = frames s ! i"
  by (simp add: assign_def)

lemma temporaries_assign [simp]:
  "a < length (frames s) \<Longrightarrow>
   temporaries (frames (assign a k v s) ! a) = (temporaries (frames s ! a))(k \<mapsto> v)"
  by (simp add: assign_def)

lemma parent_assign [simp]: "parent (frames (assign a k v s) ! i) = parent (frames s ! i)"
  by (cases "i = a"; cases "a < length (frames s)") (simp_all add: assign_def list_update_beyond)

lemma binding_assign:
  "a < length (frames s) \<Longrightarrow>
   binding (frames (assign a k v s) ! a) y = (if y = k then v else binding (frames s ! a) y)"
  by (simp add: binding_def)

lemma preserves_assign:
  assumes "a < length (frames s)"
    and "a \<in> X \<or> (currentFrame s = Some a \<and> ((v = Empty) = (binding (frames s ! a) k = Empty)))"
  shows "preserves X s (assign a k v s)"
  unfolding preserves_def
proof (intro conjI allI impI)
  fix i x
  assume "i < length (frames s)" "i \<notin> X"
  with assms show "(binding (frames (assign a k v s) ! i) x = Empty) = (binding (frames s ! i) x = Empty)"
    by (cases "i = a") (auto simp: binding_assign)
next
  fix i
  assume "i < length (frames s)" "i \<notin> X" "currentFrame s \<noteq> Some i"
  with assms show "frames (assign a k v s) ! i = frames s ! i"
    by (cases "i = a") auto
qed simp_all

lemma subscript_valid:
  "a < length (frames s) \<Longrightarrow>
   subscript a k s = Some (Inr (\<lparr>storage = (a, k)\<rparr>,
     if temporaries (frames s ! a) k = None then assign a k Empty s else s))"
  by (auto simp: subscript_def split: option.splits)

lemma subscript_returnsD:
  "subscript a k s = Some (Inr (lv, s')) \<Longrightarrow>
   a < length (frames s) \<and> lv = \<lparr>storage = (a, k)\<rparr> \<and>
   s' = (if temporaries (frames s ! a) k = None then assign a k Empty s else s)"
  by (auto simp: subscript_def split: option.splits if_splits)

lemma currentSlot_valid:
  "currentFrame s = Some c \<Longrightarrow> c < length (frames s) \<Longrightarrow>
   currentSlot k s = Some (Inr (\<lparr>storage = (c, k)\<rparr>,
     if temporaries (frames s ! c) k = None then assign c k Empty s else s))"
  by (simp add: currentSlot_def subscript_valid)

lemma currentSlot_returnsD:
  "currentSlot k s = Some (Inr (lv, s')) \<Longrightarrow>
   \<exists>c. currentFrame s = Some c \<and> c < length (frames s) \<and> lv = \<lparr>storage = (c, k)\<rparr> \<and>
       s' = (if temporaries (frames s ! c) k = None then assign c k Empty s else s)"
  by (cases "currentFrame s") (auto simp: currentSlot_def dest: subscript_returnsD)

lemma load_valid:
  "a < length (frames s) \<Longrightarrow> temporaries (frames s ! a) k = Some v \<Longrightarrow>
   load \<lparr>storage = (a, k)\<rparr> s = Some (Inr (v, s))"
  by (simp add: load_def)

lemma load_returnsD:
  "load lv s = Some (Inr (v, s')) \<Longrightarrow>
   s' = s \<and> fst (storage lv) < length (frames s) \<and>
   temporaries (frames s ! fst (storage lv)) (snd (storage lv)) = Some v"
  by (auto simp: load_def split: option.splits if_splits)

lemma store_valid:
  "a < length (frames s) \<Longrightarrow> temporaries (frames s ! a) k = Some old \<Longrightarrow>
   store \<lparr>storage = (a, k)\<rparr> v s = Some (Inr ((), assign a k v s))"
  by (simp add: store_def)

lemma store_returnsD:
  "store lv v s = Some (Inr (u, s')) \<Longrightarrow>
   fst (storage lv) < length (frames s) \<and>
   temporaries (frames s ! fst (storage lv)) (snd (storage lv)) \<noteq> None \<and>
   s' = assign (fst (storage lv)) (snd (storage lv)) v s"
  by (auto simp: store_def split: option.splits if_splits)

lemma binding_slot_created [simp]:
  "c < length (frames s) \<Longrightarrow> temporaries (frames s ! c) k = None \<Longrightarrow>
   binding (frames (assign c k Empty s) ! c) y = binding (frames s ! c) y"
  by (simp add: binding_def)

lemma binding_Some: "temporaries f x = Some v \<Longrightarrow> binding f x = v"
  by (simp add: binding_def)

lemma binding_not_Empty:
  "binding f x \<noteq> Empty \<Longrightarrow> temporaries f x = Some (binding f x)"
  by (simp add: binding_def split: option.splits)

lemma evaluateVariable_bound:
  assumes "currentFrame s = Some c" "c < length (frames s)" "binding (frames s ! c) x \<noteq> Empty"
  shows "evaluateVariable x s = Some (Inr (binding (frames s ! c) x, s))"
proof -
  from assms(3) have t: "temporaries (frames s ! c) x = Some (binding (frames s ! c) x)"
    by (rule binding_not_Empty)
  then have "currentSlot x s = Some (Inr (\<lparr>storage = (c, x)\<rparr>, s))"
    using assms by (simp add: currentSlot_valid)
  moreover have "load \<lparr>storage = (c, x)\<rparr> s = Some (Inr (binding (frames s ! c) x, s))"
    using assms t by (simp add: load_valid)
  ultimately show ?thesis
    using assms(3) by (simp add: evaluateVariable_def bind_returns)
qed

lemma evaluateVariable_unbound:
  assumes "currentFrame s = Some c" "c < length (frames s)" "binding (frames s ! c) x = Empty"
  shows "evaluateVariable x s = Some (Inl AssertionFailed)"
proof (cases "temporaries (frames s ! c) x")
  case None
  with assms have "currentSlot x s = Some (Inr (\<lparr>storage = (c, x)\<rparr>, assign c x Empty s))"
    by (simp add: currentSlot_valid)
  moreover have "load \<lparr>storage = (c, x)\<rparr> (assign c x Empty s) = Some (Inr (Empty, assign c x Empty s))"
    using assms by (simp add: load_valid)
  ultimately show ?thesis
    by (simp add: evaluateVariable_def bind_returns)
next
  case (Some v)
  with assms have v: "v = Empty" by (simp add: binding_def)
  from Some assms have "currentSlot x s = Some (Inr (\<lparr>storage = (c, x)\<rparr>, s))"
    by (simp add: currentSlot_valid)
  moreover have "load \<lparr>storage = (c, x)\<rparr> s = Some (Inr (Empty, s))"
    using assms Some v by (simp add: load_valid)
  ultimately show ?thesis
    by (simp add: evaluateVariable_def bind_returns)
qed

lemma evaluateVariable_invalid:
  assumes "\<not> (\<exists>c. currentFrame s = Some c \<and> c < length (frames s))"
  shows "evaluateVariable x s = Some (Inl InvalidPointer)"
  using assms
  by (cases "currentFrame s")
     (simp_all add: evaluateVariable_def bind_def currentSlot_def subscript_def)

lemma evaluateVariable_returnsD:
  assumes "evaluateVariable x s = Some (Inr (v, s'))"
  shows "s' = s \<and> v \<noteq> Empty \<and>
         (\<exists>c. currentFrame s = Some c \<and> c < length (frames s) \<and> binding (frames s ! c) x = v)"
proof (cases "\<exists>c. currentFrame s = Some c \<and> c < length (frames s)")
  case False
  with assms show ?thesis by (simp add: evaluateVariable_invalid)
next
  case True
  then obtain c where c: "currentFrame s = Some c" "c < length (frames s)" by blast
  show ?thesis
  proof (cases "binding (frames s ! c) x = Empty")
    case True
    with assms c show ?thesis by (simp add: evaluateVariable_unbound)
  next
    case False
    with assms c show ?thesis by (auto simp: evaluateVariable_bound)
  qed
qed

lemma evaluate_Variable:
  "evaluate model (Suc n) (Variable x) = evaluateVariable x"
  by (rule ext) simp

lemma evaluate_returns_fuel:
  "evaluate model n e s = Some r \<Longrightarrow> \<exists>m. n = Suc m"
  by (cases n) simp_all

lemma bind_returnsE:
  assumes "bind m f s = Some (Inr (b, s''))"
  obtains a s' where "m s = Some (Inr (a, s'))" "f a s' = Some (Inr (b, s''))"
  using assms by (auto simp: bind_returns_iff)

lemma lift_integer_returnsD:
  "lift (integer cv) s = Some (Inr (i, s')) \<Longrightarrow> cv = Integer i \<and> s' = s"
  by (cases cv) simp_all

lemma store_case:
  "(case kind of
      AssignmentExpression \<Rightarrow> store lvalue rvalue
    | AddAssignmentExpression \<Rightarrow> store lvalue (Integer (SVInt_plus l r))
    | SubtractAssignmentExpression \<Rightarrow> store lvalue (Integer (SVInt_minus l r))
    | MultiplyAssignmentExpression \<Rightarrow> store lvalue (Integer (SVInt_times l r))
    | DivideAssignmentExpression \<Rightarrow> store lvalue (Integer (SVInt_divide l r))
    | ModAssignmentExpression \<Rightarrow> store lvalue (Integer (SVInt_mod l r))
    | AndAssignmentExpression \<Rightarrow> store lvalue (Integer (SVInt_and l r))
    | OrAssignmentExpression \<Rightarrow> store lvalue (Integer (SVInt_or l r))
    | XorAssignmentExpression \<Rightarrow> store lvalue (Integer (SVInt_xor l r))
    | _ \<Rightarrow> throw Unreachable)
   = (case stored_value kind rvalue l r of
        None \<Rightarrow> throw Unreachable
      | Some v \<Rightarrow> store lvalue v)"
  by (cases kind) (simp_all add: stored_value_def)

lemma evaluateAssignment_stored:
  "evaluateAssignment ev kind left right =
     bind (evaluateLValue left) (\<lambda>(ok, lvalue).
       if \<not> ok then ret Empty
       else
         bind (ev right) (\<lambda>rvalue.
         bind (ev left) (\<lambda>lcv.
         bind (lift (integer lcv)) (\<lambda>l.
         bind (lift (integer rvalue)) (\<lambda>r.
         bind (case stored_value kind rvalue l r of
                 None \<Rightarrow> throw Unreachable
               | Some v \<Rightarrow> store lvalue v) (\<lambda>_.
           load lvalue))))))"
  by (simp only: evaluateAssignment_def store_case)

lemma stored_value_Integer:
  "stored_value kind (Integer r) l r = Some v \<Longrightarrow> v \<noteq> Empty"
  by (cases kind) (auto simp: stored_value_def)

lemma evaluateLValue_valid:
  "currentFrame s = Some c \<Longrightarrow> c < length (frames s) \<Longrightarrow>
   evaluateLValue (Variable x) s = Some (Inr ((True, \<lparr>storage = (c, x)\<rparr>),
     if temporaries (frames s ! c) x = None then assign c x Empty s else s))"
  by (simp add: evaluateLValue_def bind_returns [OF currentSlot_valid])

lemma evaluateLValue_returnsD:
  assumes "evaluateLValue left s = Some (Inr ((ok, lv), s'))"
  shows "\<exists>x c. left = Variable x \<and> ok \<and> currentFrame s = Some c \<and> c < length (frames s) \<and>
           lv = \<lparr>storage = (c, x)\<rparr> \<and>
           s' = (if temporaries (frames s ! c) x = None then assign c x Empty s else s)"
proof (cases left)
  case (Variable x)
  with assms have slot: "currentSlot x s = Some (Inr (lv, s'))" and ok: "ok"
    by (auto simp: evaluateLValue_def bind_returns_iff)
  from currentSlot_returnsD [OF slot] obtain c where
    "currentFrame s = Some c" "c < length (frames s)" "lv = \<lparr>storage = (c, x)\<rparr>"
    "s' = (if temporaries (frames s ! c) x = None then assign c x Empty s else s)"
    by blast
  with Variable ok show ?thesis by blast
qed (use assms in \<open>simp_all add: evaluateLValue_def\<close>)

lemma preserves_slot_created:
  "c < length (frames s) \<Longrightarrow> currentFrame s = Some c \<or> c \<in> X \<Longrightarrow>
   preserves X s (if temporaries (frames s ! c) x = None then assign c x Empty s else s)"
  by (auto intro!: preserves_assign simp: binding_def)

section \<open>Evaluation respects the frame discipline\<close>

lemma evaluateUnary_returnsD:
  assumes "evaluateUnary ev kind e s = Some (Inr (v, s'))"
  shows "\<exists>cv. ev e s = Some (Inr (cv, s'))"
proof -
  from assms obtain cv s1 i s2 where a: "ev e s = Some (Inr (cv, s1))"
    and b: "lift (integer cv) s1 = Some (Inr (i, s2))"
    and c: "(case kind of
         UnaryPlusExpression \<Rightarrow> ret (Integer i)
       | UnaryMinusExpression \<Rightarrow> ret (Integer (SVInt_neg i))
       | UnaryBitwiseNotExpression \<Rightarrow> ret (Integer (SVInt_complement i))
       | UnaryBitwiseAndExpression \<Rightarrow> ret (Integer (SVInt_of_logic (reductionAnd i)))
       | UnaryBitwiseOrExpression \<Rightarrow> ret (Integer (SVInt_of_logic (reductionOr i)))
       | UnaryBitwiseXorExpression \<Rightarrow> ret (Integer (SVInt_of_logic (reductionXor i)))
       | UnaryBitwiseNandExpression \<Rightarrow>
           ret (Integer (SVInt_of_logic (logic_not (reductionAnd i))))
       | UnaryBitwiseNorExpression \<Rightarrow>
           ret (Integer (SVInt_of_logic (logic_not (reductionOr i))))
       | UnaryBitwiseXnorExpression \<Rightarrow>
           ret (Integer (SVInt_of_logic (logic_not (reductionXor i))))
       | UnaryLogicalNotExpression \<Rightarrow> ret (Integer (SVInt_of_logic (SVInt_lnot i)))
       | _ \<Rightarrow> throw Unreachable) s2 = Some (Inr (v, s'))"
    unfolding evaluateUnary_def by (elim bind_returnsE)
  from b have "s2 = s1" by (simp add: lift_integer_returnsD)
  moreover from c have "s' = s2" by (cases kind) simp_all
  ultimately show ?thesis using a by simp
qed

lemma evaluateBinary_returnsD:
  assumes "evaluateBinary ev kind l r s = Some (Inr (v, s'))"
  shows "\<exists>lcv s1 rcv. ev l s = Some (Inr (lcv, s1)) \<and> ev r s1 = Some (Inr (rcv, s'))"
proof -
  from assms obtain lcv s1 li s2 rcv s3 ri s4 where a: "ev l s = Some (Inr (lcv, s1))"
    and b: "lift (integer lcv) s1 = Some (Inr (li, s2))"
    and c: "ev r s2 = Some (Inr (rcv, s3))"
    and d: "lift (integer rcv) s3 = Some (Inr (ri, s4))"
    and e: "(case kind of
         AddExpression \<Rightarrow> ret (Integer (SVInt_plus li ri))
       | SubtractExpression \<Rightarrow> ret (Integer (SVInt_minus li ri))
       | MultiplyExpression \<Rightarrow> ret (Integer (SVInt_times li ri))
       | DivideExpression \<Rightarrow> ret (Integer (SVInt_divide li ri))
       | ModExpression \<Rightarrow> ret (Integer (SVInt_mod li ri))
       | BinaryAndExpression \<Rightarrow> ret (Integer (SVInt_and li ri))
       | BinaryOrExpression \<Rightarrow> ret (Integer (SVInt_or li ri))
       | BinaryXorExpression \<Rightarrow> ret (Integer (SVInt_xor li ri))
       | BinaryXnorExpression \<Rightarrow> ret (Integer (xnor li ri))
       | EqualityExpression \<Rightarrow> ret (Integer (SVInt_of_logic (SVInt_eq li ri)))
       | InequalityExpression \<Rightarrow> ret (Integer (SVInt_of_logic (SVInt_ne li ri)))
       | CaseEqualityExpression \<Rightarrow>
           ret (Integer (SVInt_of_logic (logic_of_bool (exactlyEqual li ri))))
       | CaseInequalityExpression \<Rightarrow>
           ret (Integer (SVInt_of_logic (logic_of_bool (\<not> exactlyEqual li ri))))
       | GreaterThanEqualExpression \<Rightarrow> ret (Integer (SVInt_of_logic (SVInt_ge li ri)))
       | GreaterThanExpression \<Rightarrow> ret (Integer (SVInt_of_logic (SVInt_gt li ri)))
       | LessThanEqualExpression \<Rightarrow> ret (Integer (SVInt_of_logic (SVInt_le li ri)))
       | LessThanExpression \<Rightarrow> ret (Integer (SVInt_of_logic (SVInt_lt li ri)))
       | _ \<Rightarrow> throw Unreachable) s4 = Some (Inr (v, s'))"
    unfolding evaluateBinary_def by (elim bind_returnsE)
  from b have "s2 = s1" by (simp add: lift_integer_returnsD)
  moreover from d have "s4 = s3" by (simp add: lift_integer_returnsD)
  moreover from e have "s' = s4" by (cases kind) simp_all
  ultimately show ?thesis using a c by simp
qed

lemma evaluateAssignment_preserves:
  assumes ev: "\<And>e s v s'. ev e s = Some (Inr (v, s')) \<Longrightarrow> preserves {} s s'"
    and var: "\<And>x s r. ev (Variable x) s = Some (Inr r) \<Longrightarrow> evaluateVariable x s = Some (Inr r)"
    and ret: "evaluateAssignment ev kind left right s = Some (Inr (v, s'))"
  shows "preserves {} s s'"
proof -
  from ret obtain oklv s0 where lv: "evaluateLValue left s = Some (Inr (oklv, s0))"
    and rest: "(case oklv of (ok, lvalue) \<Rightarrow>
       if \<not> ok then ret Empty
       else
         bind (ev right) (\<lambda>rvalue.
         bind (ev left) (\<lambda>lcv.
         bind (lift (integer lcv)) (\<lambda>l.
         bind (lift (integer rvalue)) (\<lambda>r.
         bind (case stored_value kind rvalue l r of
                 None \<Rightarrow> throw Unreachable
               | Some v \<Rightarrow> store lvalue v) (\<lambda>_.
           load lvalue)))))) s0 = Some (Inr (v, s'))"
    unfolding evaluateAssignment_stored by (elim bind_returnsE)
  obtain ok lvalue where oklv: "oklv = (ok, lvalue)" by (cases oklv)
  from evaluateLValue_returnsD [OF lv [unfolded oklv]] obtain x c where
    x: "left = Variable x" "ok" "currentFrame s = Some c" "c < length (frames s)"
       "lvalue = \<lparr>storage = (c, x)\<rparr>"
       "s0 = (if temporaries (frames s ! c) x = None then assign c x Empty s else s)"
    by blast
  have p0: "preserves {} s s0"
    unfolding x(6) using x(3,4) by (intro preserves_slot_created) simp_all
  from rest oklv x(2) obtain rvalue s1 lcv s2 l s3 r s4 u s5 where
    r1: "ev right s0 = Some (Inr (rvalue, s1))"
    and r2: "ev left s1 = Some (Inr (lcv, s2))"
    and r3: "lift (integer lcv) s2 = Some (Inr (l, s3))"
    and r4: "lift (integer rvalue) s3 = Some (Inr (r, s4))"
    and r5: "(case stored_value kind rvalue l r of
                 None \<Rightarrow> throw Unreachable
               | Some v \<Rightarrow> store lvalue v) s4 = Some (Inr (u, s5))"
    and r6: "load lvalue s5 = Some (Inr (v, s'))"
    by (auto elim!: bind_returnsE)
  have p1: "preserves {} s0 s1" using r1 by (rule ev)
  from r2 x(1) have "evaluateVariable x s1 = Some (Inr (lcv, s2))" by (simp add: var)
  from evaluateVariable_returnsD [OF this] obtain c' where
    v: "s2 = s1" "lcv \<noteq> Empty" "currentFrame s1 = Some c'" "c' < length (frames s1)"
       "binding (frames s1 ! c') x = lcv"
    by blast
  from p0 p1 x(3) v(3) have c': "c' = c" by (simp add: preserves_def)
  from r3 have s3: "s3 = s2" by (simp add: lift_integer_returnsD)
  from r4 have s4: "s4 = s3" and rv: "rvalue = Integer r" by (simp_all add: lift_integer_returnsD)
  from r5 obtain w where w: "stored_value kind rvalue l r = Some w"
    and st: "store lvalue w s4 = Some (Inr (u, s5))"
    by (cases "stored_value kind rvalue l r") simp_all
  from w rv have wne: "w \<noteq> Empty" by (auto dest: stored_value_Integer)
  from store_returnsD [OF st] x(5) have s5: "s5 = assign c x w s4" by simp
  have p5: "preserves {} s1 s5"
    unfolding s5 s4 s3 v(1) using v c' wne by (intro preserves_assign) simp_all
  from r6 have "s' = s5" by (simp add: load_returnsD)
  with p0 p1 p5 show ?thesis by (blast intro: preserves_trans)
qed

lemma bindArguments_preserves:
  assumes ev: "\<And>e s v s'. ev e s = Some (Inr (v, s')) \<Longrightarrow> preserves {} s s'"
  shows "bindArguments ev nf formals actuals i s = Some (Inr (u, s')) \<Longrightarrow>
         preserves {nf} s s'"
proof (induction formals arbitrary: i s)
  case Nil
  then show ?case by simp
next
  case (Cons formal formals)
  from Cons.prems have i: "i < length actuals"
    by (simp split: if_splits)
  with Cons.prems obtain v s1 slot s2 w s3 where
    a: "ev (actuals ! i) s = Some (Inr (v, s1))"
    and b: "subscript nf formal s1 = Some (Inr (slot, s2))"
    and c: "store slot v s2 = Some (Inr (w, s3))"
    and d: "bindArguments ev nf formals actuals (Suc i) s3 = Some (Inr (u, s'))"
    by (auto elim!: bind_returnsE)
  have p1: "preserves {nf} s s1"
    using ev [OF a] by (rule preserves_mono) simp
  from subscript_returnsD [OF b] have nf: "nf < length (frames s1)"
    and slot: "slot = \<lparr>storage = (nf, formal)\<rparr>"
    and s2: "s2 = (if temporaries (frames s1 ! nf) formal = None
                   then assign nf formal Empty s1 else s1)"
    by simp_all
  have p2: "preserves {nf} s1 s2"
    unfolding s2 using nf by (intro preserves_slot_created) simp_all
  from store_returnsD [OF c] slot have s3: "s3 = assign nf formal v s2" and nf2: "nf < length (frames s2)"
    by simp_all
  have p3: "preserves {nf} s2 s3"
    unfolding s3 using nf2 by (intro preserves_assign) simp_all
  have p4: "preserves {nf} s3 s'"
    using d by (rule Cons.IH)
  from p1 p2 p3 p4 show ?case by (blast intro: preserves_trans)
qed

lemma evaluateCall_returnsD:
  assumes "evaluateCall ev subroutine actuals s = Some (Inr (v, s'))"
  shows "\<exists>u s1 s4. bindArguments ev (length (frames s)) (arguments subroutine) actuals 0
            (s\<lparr>frames := frames s @ [\<lparr>temporaries = Map.empty, parent = currentFrame s\<rparr>]\<rparr>)
            = Some (Inr (u, s1))
        \<and> ev (body subroutine) (s1\<lparr>currentFrame := Some (length (frames s))\<rparr>) = Some (Inr (v, s4))
        \<and> length (frames s) < length (frames s4)
        \<and> s' = s4\<lparr>currentFrame := parent (frames s4 ! length (frames s)),
                   frames := take (length (frames s)) (frames s4)\<rparr>"
proof -
  from assms obtain nf s0 u s1 w sb s4 p s5 w' s6 w'' s7 where
    a: "newFrame s = Some (Inr (nf, s0))"
    and b: "bindArguments ev nf (arguments subroutine) actuals 0 s0 = Some (Inr (u, s1))"
    and c: "setCurrentFrame (Some nf) s1 = Some (Inr (w, sb))"
    and d: "ev (body subroutine) sb = Some (Inr (v, s4))"
    and e: "getParent nf s4 = Some (Inr (p, s5))"
    and f: "setCurrentFrame p s5 = Some (Inr (w', s6))"
    and g: "destroyFrame nf s6 = Some (Inr (w'', s7))"
    and h: "s' = s7"
    unfolding evaluateCall_def by (auto elim!: bind_returnsE)
  from a have nf: "nf = length (frames s)"
    and s0: "s0 = s\<lparr>frames := frames s @ [\<lparr>temporaries = Map.empty, parent = currentFrame s\<rparr>]\<rparr>"
    by (auto simp: newFrame_def)
  from c have sb: "sb = s1\<lparr>currentFrame := Some nf\<rparr>" by (simp add: setCurrentFrame_def)
  from e have e': "nf < length (frames s4)" "p = parent (frames s4 ! nf)" "s5 = s4"
    by (auto simp: getParent_def split: if_splits)
  from f have s6: "s6 = s5\<lparr>currentFrame := p\<rparr>" by (simp add: setCurrentFrame_def)
  from g have s7: "s7 = s6\<lparr>frames := take nf (frames s6)\<rparr>" by (simp add: destroyFrame_def)
  from b d show ?thesis
    unfolding nf s0 sb h s7 s6 e'(3) using e'(1,2) nf by auto
qed

lemma evaluateCall_preserves:
  assumes ev: "\<And>e s v s'. ev e s = Some (Inr (v, s')) \<Longrightarrow> preserves {} s s'"
    and ret: "evaluateCall ev subroutine actuals s = Some (Inr (v, s'))"
  shows "preserves {} s s'"
proof -
  define nf where "nf = length (frames s)"
  define s0 where "s0 = s\<lparr>frames := frames s @ [\<lparr>temporaries = Map.empty, parent = currentFrame s\<rparr>]\<rparr>"
  from evaluateCall_returnsD [OF ret] obtain u s1 s4 where
    b: "bindArguments ev nf (arguments subroutine) actuals 0 s0 = Some (Inr (u, s1))"
    and d: "ev (body subroutine) (s1\<lparr>currentFrame := Some nf\<rparr>) = Some (Inr (v, s4))"
    and s': "s' = s4\<lparr>currentFrame := parent (frames s4 ! nf), frames := take nf (frames s4)\<rparr>"
    unfolding nf_def s0_def by blast
  have p1: "preserves {nf} s0 s1"
    by (rule bindArguments_preserves [OF _ b]) (erule ev)
  have p2: "preserves {} (s1\<lparr>currentFrame := Some nf\<rparr>) s4" using d by (rule ev)
  have len0: "length (frames s0) = Suc nf" by (simp add: s0_def nf_def)
  have len1: "length (frames s1) = Suc nf" using p1 len0 by (simp add: preserves_def)
  have len4: "length (frames s4) = Suc nf" using p2 len1 by (simp add: preserves_def)
  have cur1: "currentFrame s1 = currentFrame s" using p1 by (simp add: preserves_def s0_def)
  have par: "parent (frames s4 ! nf) = currentFrame s"
  proof -
    have "parent (frames s4 ! nf) = parent (frames s1 ! nf)"
      using p2 len1 by (simp add: preserves_def)
    also have "\<dots> = parent (frames s0 ! nf)"
      using p1 len0 by (simp add: preserves_def)
    also have "\<dots> = currentFrame s" by (simp add: s0_def nf_def)
    finally show ?thesis .
  qed
  have low: "frames s4 ! i = frames s1 ! i" if "i < nf" for i
    using p2 len1 that by (simp add: preserves_def)
  have s0i: "frames s0 ! i = frames s ! i" if "i < nf" for i
    using that by (simp add: s0_def nf_def nth_append)
  show ?thesis
    unfolding preserves_def
  proof (intro conjI allI impI)
    show "currentFrame s' = currentFrame s" by (simp add: s' par)
    show "length (frames s') = length (frames s)" by (simp add: s' len4 nf_def)
  next
    fix i assume i: "i < length (frames s)"
    then have i': "i < nf" by (simp add: nf_def)
    then have eq: "frames s' ! i = frames s1 ! i" by (simp add: s' low)
    from p1 i' len0 have "parent (frames s1 ! i) = parent (frames s0 ! i)"
      by (simp add: preserves_def)
    with eq i' show "parent (frames s' ! i) = parent (frames s ! i)" by (simp add: s0i)
  next
    fix i assume i: "i < length (frames s)" and "i \<notin> {}" and cur: "currentFrame s \<noteq> Some i"
    then have i': "i < nf" by (simp add: nf_def)
    then have eq: "frames s' ! i = frames s1 ! i" by (simp add: s' low)
    from p1 i' len0 cur have "frames s1 ! i = frames s0 ! i"
      by (simp add: preserves_def s0_def)
    with eq i' show "frames s' ! i = frames s ! i" by (simp add: s0i)
  next
    fix i x assume i: "i < length (frames s)" and "i \<notin> {}"
    then have i': "i < nf" by (simp add: nf_def)
    then have eq: "frames s' ! i = frames s1 ! i" by (simp add: s' low)
    from p1 i' len0 have "(binding (frames s1 ! i) x = Empty) = (binding (frames s0 ! i) x = Empty)"
      by (simp add: preserves_def)
    with eq i' show "(binding (frames s' ! i) x = Empty) = (binding (frames s ! i) x = Empty)"
      by (simp add: s0i)
  qed
qed

lemma evaluate_preserves:
  "evaluate model n e s = Some (Inr (v, s')) \<Longrightarrow> preserves {} s s'"
proof (induction n arbitrary: e s v s')
  case 0
  then show ?case by simp
next
  case (Suc n)
  note IH = Suc.IH
  have var: "evaluateVariable x t = Some (Inr r)"
    if "evaluate model n (Variable x) t = Some (Inr r)" for x t r
    using that by (cases n) simp_all
  show ?case
  proof (cases e)
    case BadNode
    with Suc.prems show ?thesis by simp
  next
    case (Literal c)
    with Suc.prems show ?thesis by (simp add: evaluateLiteral_def)
  next
    case (Parameter c)
    with Suc.prems show ?thesis by (simp add: evaluateParameter_def)
  next
    case (Variable x)
    with Suc.prems show ?thesis by (auto dest: evaluateVariable_returnsD)
  next
    case (UnaryExpression kind a)
    with Suc.prems show ?thesis by (auto dest!: evaluateUnary_returnsD intro: IH)
  next
    case (BinaryExpression kind l r)
    with Suc.prems show ?thesis
      by (auto dest!: evaluateBinary_returnsD intro: IH preserves_trans)
  next
    case (AssignmentExpr kind l r)
    with Suc.prems have "evaluateAssignment (evaluate model n) kind l r s = Some (Inr (v, s'))"
      by simp
    then show ?thesis
      by (rule evaluateAssignment_preserves [rotated 2]) (auto intro: IH var)
  next
    case (CallExpression f actuals)
    with Suc.prems have "evaluateCall (evaluate model n) (model f) actuals s = Some (Inr (v, s'))"
      by simp
    then show ?thesis
      by (rule evaluateCall_preserves [rotated]) (rule IH)
  next
    case (StatementList list)
    with Suc.prems show ?thesis
      by (cases list) (auto simp: evaluateStatementList_def intro: IH)
  next
    case (ReturnStatement a)
    with Suc.prems show ?thesis by (auto simp: evaluateReturn_def intro: IH)
  qed
qed

section \<open>Assignment\<close>

lemma evaluate_Variable_bound:
  assumes "evaluate model n e s0 = Some r0"
    and "currentFrame s = Some c" "c < length (frames s)" "binding (frames s ! c) x \<noteq> Empty"
  shows "evaluate model n (Variable x) s = Some (Inr (binding (frames s ! c) x, s))"
proof -
  from assms(1) obtain m where "n = Suc m" by (auto dest: evaluate_returns_fuel)
  with assms(2-4) show ?thesis by (simp add: evaluateVariable_bound)
qed

lemma evaluate_Variable_unbound:
  assumes "evaluate model n e s0 = Some r0"
    and "currentFrame s = Some c" "c < length (frames s)" "binding (frames s ! c) x = Empty"
  shows "evaluate model n (Variable x) s = Some (Inl AssertionFailed)"
proof -
  from assms(1) obtain m where "n = Suc m" by (auto dest: evaluate_returns_fuel)
  with assms(2-4) show ?thesis by (simp add: evaluateVariable_unbound)
qed

lemma preserves_current:
  assumes "preserves {} s s'" "currentFrame s = Some c" "c < length (frames s)"
  shows "currentFrame s' = Some c" "c < length (frames s')"
    "(binding (frames s' ! c) x = Empty) = (binding (frames s ! c) x = Empty)"
  using assms by (simp_all add: preserves_def)

lemma assignment_bound:
  assumes cur: "currentFrame s = Some c" "c < length (frames s)"
    and bound: "binding (frames s ! c) x \<noteq> Empty"
    and rhs: "evaluate model n rhs s = Some (Inr (rvalue, s1))"
  shows "\<exists>l. binding (frames s1 ! c) x = Integer l \<and>
           evaluate model (Suc n) (AssignmentExpr kind (Variable x) rhs) s =
             (case rvalue of
                Empty \<Rightarrow> Some (Inl BadVariantAccess)
              | Integer r \<Rightarrow>
                 (case stored_value kind rvalue l r of
                    None \<Rightarrow> Some (Inl Unreachable)
                  | Some w \<Rightarrow> Some (Inr (w, assign c x w s1))))"
proof -
  have p: "preserves {} s s1" using rhs by (rule evaluate_preserves)
  note c1 = preserves_current [OF p cur]
  from bound c1(3) have b1: "binding (frames s1 ! c) x \<noteq> Empty" by simp
  then obtain l where l: "binding (frames s1 ! c) x = Integer l"
    by (cases "binding (frames s1 ! c) x") simp_all
  from bound have "temporaries (frames s ! c) x \<noteq> None"
    by (auto simp: binding_def split: option.splits)
  then have lv0: "evaluateLValue (Variable x) s = Some (Inr ((True, \<lparr>storage = (c, x)\<rparr>), s))"
    using cur by (auto simp: evaluateLValue_valid)
  have rd0: "evaluate model n (Variable x) s1 = Some (Inr (Integer l, s1))"
    using evaluate_Variable_bound [OF rhs c1(1,2) b1] l by simp
  note lv = bind_returns [where m = "evaluateLValue (Variable x)" and s = s, OF lv0]
  note rh = bind_returns [where m = "evaluate model n rhs" and s = s, OF rhs]
  note rd = bind_returns [where m = "evaluate model n (Variable x)" and s = s1, OF rd0]
  from l have slot: "temporaries (frames s1 ! c) x = Some (Integer l)"
    using binding_not_Empty [OF b1] by simp
  have "evaluate model (Suc n) (AssignmentExpr kind (Variable x) rhs) s =
             (case rvalue of
                Empty \<Rightarrow> Some (Inl BadVariantAccess)
              | Integer r \<Rightarrow>
                 (case stored_value kind rvalue l r of
                    None \<Rightarrow> Some (Inl Unreachable)
                  | Some w \<Rightarrow> Some (Inr (w, assign c x w s1))))"
  proof (cases rvalue)
    case Empty
    then show ?thesis
      by (simp add: evaluateAssignment_stored lv rh rd)
  next
    case (Integer r)
    show ?thesis
    proof (cases "stored_value kind rvalue l r")
      case None
      with Integer show ?thesis
        by (simp add: evaluateAssignment_stored lv rh rd)
    next
      case (Some w)
      have st0: "store \<lparr>storage = (c, x)\<rparr> w s1 = Some (Inr ((), assign c x w s1))"
        using c1(2) slot by (rule store_valid)
      note st = bind_returns [where m = "store \<lparr>storage = (c, x)\<rparr> w" and s = s1, OF st0]
      have ld: "load \<lparr>storage = (c, x)\<rparr> (assign c x w s1) = Some (Inr (w, assign c x w s1))"
        using c1(2) by (intro load_valid) simp_all
      from Integer Some show ?thesis
        by (simp add: evaluateAssignment_stored lv rh rd st ld)
    qed
  qed
  with l show ?thesis by blast
qed

lemma assignment_unbound:
  assumes cur: "currentFrame s = Some c" "c < length (frames s)"
    and unbound: "binding (frames s ! c) x = Empty"
  shows "evaluate model (Suc n) (AssignmentExpr kind (Variable x) rhs) s =
           (case evaluate model n rhs
                   (if temporaries (frames s ! c) x = None then assign c x Empty s else s) of
              None \<Rightarrow> None
            | Some (Inl e) \<Rightarrow> Some (Inl e)
            | Some (Inr (rvalue, s1)) \<Rightarrow> Some (Inl AssertionFailed))"
proof -
  define s0 where "s0 = (if temporaries (frames s ! c) x = None then assign c x Empty s else s)"
  have lv0: "evaluateLValue (Variable x) s = Some (Inr ((True, \<lparr>storage = (c, x)\<rparr>), s0))"
    using cur by (simp add: evaluateLValue_valid s0_def)
  note lv = bind_returns [where m = "evaluateLValue (Variable x)" and s = s, OF lv0]
  have c0: "currentFrame s0 = Some c" "c < length (frames s0)" "binding (frames s0 ! c) x = Empty"
    using cur unbound by (simp_all add: s0_def)
  show ?thesis
  proof (cases "evaluate model n rhs s0")
    case None
    then show ?thesis
      by (simp add: evaluateAssignment_stored lv bind_diverges s0_def [symmetric])
  next
    case (Some res)
    show ?thesis
    proof (cases res)
      case (Inl e)
      with Some show ?thesis
        by (simp add: evaluateAssignment_stored lv bind_faults s0_def [symmetric])
    next
      case (Inr vs)
      obtain rvalue s1 where vs: "vs = (rvalue, s1)" by (cases vs)
      with Some Inr have rhs: "evaluate model n rhs s0 = Some (Inr (rvalue, s1))" by simp
      have p: "preserves {} s0 s1" using rhs by (rule evaluate_preserves)
      note c1 = preserves_current [OF p c0(1,2)]
      from c0(3) c1(3) have "binding (frames s1 ! c) x = Empty" by simp
      from evaluate_Variable_unbound [OF rhs c1(1,2) this]
      have rd: "evaluate model n (Variable x) s1 = Some (Inl AssertionFailed)" .
      note rh = bind_returns [where m = "evaluate model n rhs" and s = s0, OF rhs]
      note rf = bind_faults [where m = "evaluate model n (Variable x)" and s = s1, OF rd]
      show ?thesis
        by (simp add: evaluateAssignment_stored lv rh rf s0_def [symmetric] rhs)
    qed
  qed
qed

lemma compound_operator_stored:
  assumes "compound_operator kind = Some bk"
  shows "\<exists>res. stored_value kind rvalue l r = Some res \<and>
           evaluate model (Suc (Suc 0))
             (BinaryExpression bk (Literal (Integer l)) (Literal (Integer r))) t
           = Some (Inr (res, t))"
  using assms
  by (cases kind)
     (simp_all add: compound_operator_def stored_value_def evaluateBinary_def evaluateLiteral_def)

section \<open>Lvalue resolution\<close>

text \<open>
  C2, as amended. The claim is that resolving an lvalue whose target has no
  binding leaves the frame's binding table unchanged. The table does change:
  the subscript operator inserts a slot holding \<open>Empty\<close> for a target that has
  none, as the counterexample after the theorem shows. What holds is that resolution
  of a variable in a valid current frame returns a handle on the target's slot
  in that frame, inserts at most that \<open>Empty\<close> slot, respects the frame
  discipline (no other frame changes and no symbol becomes bound), and leaves
  the value that a read of any symbol of the current frame sees unchanged: a
  target that was unbound stays unbound.
\<close>

theorem lvalue_resolution_slot:
  assumes "currentFrame s = Some c" "c < length (frames s)"
  shows "evaluateLValue (Variable x) s =
           Some (Inr ((True, \<lparr>storage = (c, x)\<rparr>),
             if temporaries (frames s ! c) x = None then assign c x Empty s else s))
       \<and> preserves {} s (if temporaries (frames s ! c) x = None then assign c x Empty s else s)
       \<and> (\<forall>y. binding (frames (if temporaries (frames s ! c) x = None
                                 then assign c x Empty s else s) ! c) y
               = binding (frames s ! c) y)"
proof (intro conjI allI)
  show "evaluateLValue (Variable x) s =
           Some (Inr ((True, \<lparr>storage = (c, x)\<rparr>),
             if temporaries (frames s ! c) x = None then assign c x Empty s else s))"
    using assms by (rule evaluateLValue_valid)
  show "preserves {} s (if temporaries (frames s ! c) x = None then assign c x Empty s else s)"
    using assms by (intro preserves_slot_created) simp_all
  fix y
  show "binding (frames (if temporaries (frames s ! c) x = None
                                 then assign c x Empty s else s) ! c) y
               = binding (frames s ! c) y"
    using assms by simp
qed

theorem lvalue_resolution_slot_witness:
  "evaluateLValue (Variable 1) ConstantEvaluator_new =
     Some (Inr ((True, \<lparr>storage = (0, 1)\<rparr>), assign 0 1 Empty ConstantEvaluator_new))
   \<and> binding (frames (assign 0 1 Empty ConstantEvaluator_new) ! 0) 1 = Empty"
proof -
  have h: "currentFrame ConstantEvaluator_new = Some 0"
    "0 < length (frames ConstantEvaluator_new)"
    by (simp_all add: ConstantEvaluator_new_def)
  have n: "temporaries (frames ConstantEvaluator_new ! 0) 1 = None"
    by (simp add: ConstantEvaluator_new_def)
  have b: "binding (frames ConstantEvaluator_new ! 0) 1 = Empty"
    by (simp add: ConstantEvaluator_new_def binding_def)
  from lvalue_resolution_slot [OF h, of 1] n b show ?thesis by simp
qed

theorem lvalue_resolution_counterexample:
  "evaluateLValue (Variable 1) ConstantEvaluator_new =
     Some (Inr ((True, \<lparr>storage = (0, 1)\<rparr>), assign 0 1 Empty ConstantEvaluator_new))
   \<and> temporaries (frames ConstantEvaluator_new ! 0) 1 = None
   \<and> temporaries (frames (assign 0 1 Empty ConstantEvaluator_new) ! 0) 1 = Some Empty"
  by (simp add: evaluateLValue_def currentSlot_def subscript_def bind_def
        ConstantEvaluator_new_def assign_def)

section \<open>Plain assignment\<close>

text \<open>
  C3, as amended. The claim is made for every plain assignment \<open>x = v\<close>; it
  fails when \<open>x\<close> is not yet bound, because \<^verbatim>\<open>evaluateAssignment\<close> reads \<open>x\<close>
  before it stores, as the counterexample after the theorem shows. For a target
  that is bound in the current frame and a right-hand side that evaluates to
  an integer \<open>v\<close>, the assignment evaluates to \<open>v\<close>, the resulting state is the
  state after the right-hand side with the slot of \<open>x\<close> holding \<open>v\<close>, and a
  read of \<open>x\<close> in that state yields \<open>v\<close>.
\<close>

theorem plain_assignment_stores:
  assumes "currentFrame s = Some c" "c < length (frames s)"
    and "binding (frames s ! c) x \<noteq> Empty"
    and "evaluate model n rhs s = Some (Inr (Integer v, s1))"
  shows "evaluate model (Suc n) (AssignmentExpr AssignmentExpression (Variable x) rhs) s
           = Some (Inr (Integer v, assign c x (Integer v) s1))
       \<and> evaluate model (Suc 0) (Variable x) (assign c x (Integer v) s1)
           = Some (Inr (Integer v, assign c x (Integer v) s1))"
proof -
  have p: "preserves {} s s1" using assms(4) by (rule evaluate_preserves)
  note c1 = preserves_current [OF p assms(1,2)]
  from assignment_bound [OF assms, of AssignmentExpression]
  have "evaluate model (Suc n) (AssignmentExpr AssignmentExpression (Variable x) rhs) s
           = Some (Inr (Integer v, assign c x (Integer v) s1))"
    by (auto simp: stored_value_def)
  moreover have "evaluateVariable x (assign c x (Integer v) s1)
           = Some (Inr (binding (frames (assign c x (Integer v) s1) ! c) x, assign c x (Integer v) s1))"
    using c1(1,2) by (intro evaluateVariable_bound) (simp_all add: binding_assign)
  ultimately show ?thesis using c1(2) by (simp add: binding_assign)
qed

theorem plain_assignment_stores_witness:
  "evaluate (\<lambda>f. \<lparr>arguments = [], body = BadNode\<rparr>) (Suc (Suc 0))
     (AssignmentExpr AssignmentExpression (Variable 0)
        (Literal (Integer (SVInt False [L1, L0, L1]))))
     \<lparr>frames = [\<lparr>temporaries = [0 \<mapsto> Integer (SVInt False [L1, L1, L0])], parent = None\<rparr>],
      currentFrame = Some 0\<rparr>
   = Some (Inr (Integer (SVInt False [L1, L0, L1]),
        assign 0 0 (Integer (SVInt False [L1, L0, L1]))
          \<lparr>frames = [\<lparr>temporaries = [0 \<mapsto> Integer (SVInt False [L1, L1, L0])], parent = None\<rparr>],
           currentFrame = Some 0\<rparr>))"
proof -
  let ?s = "\<lparr>frames = [\<lparr>temporaries = [0 \<mapsto> Integer (SVInt False [L1, L1, L0])], parent = None\<rparr>],
      currentFrame = Some (0::nat)\<rparr>"
  let ?m = "\<lambda>f::nat. \<lparr>arguments = [], body = BadNode\<rparr>"
  have h: "currentFrame ?s = Some 0" "0 < length (frames ?s)"
    "binding (frames ?s ! 0) 0 \<noteq> Empty"
    "evaluate ?m (Suc 0) (Literal (Integer (SVInt False [L1, L0, L1]))) ?s
       = Some (Inr (Integer (SVInt False [L1, L0, L1]), ?s))"
    by (simp_all add: binding_def evaluateLiteral_def)
  from plain_assignment_stores [OF h] show ?thesis by (rule conjunct1)
qed

theorem plain_assignment_unbound_counterexample:
  "evaluate (\<lambda>f. \<lparr>arguments = [], body = BadNode\<rparr>) (Suc (Suc 0))
     (AssignmentExpr AssignmentExpression (Variable 0)
        (Literal (Integer (SVInt False [L1, L0, L1]))))
     ConstantEvaluator_new
   = Some (Inl AssertionFailed)"
proof -
  have h: "currentFrame ConstantEvaluator_new = Some 0"
    "0 < length (frames ConstantEvaluator_new)"
    "binding (frames ConstantEvaluator_new ! 0) 0 = Empty"
    by (simp_all add: ConstantEvaluator_new_def binding_def)
  show ?thesis
    unfolding assignment_unbound [OF h] by (simp add: evaluateLiteral_def)
qed

text \<open>
  C10. A plain assignment also reads its target as an rvalue before it stores.
  In a valid current frame: when the target is not bound, the assignment never
  returns a value, and as soon as the right-hand side (evaluated in the state
  that lvalue resolution leaves) returns, the assignment aborts at the
  assertion of the variable read, so it does not create the first binding;
  when the target is bound and the right-hand side returns, the variable read
  that follows returns the target's current value and the assignment does not
  abort at the assertion.
\<close>

theorem plain_assignment_reads_target:
  assumes "currentFrame s = Some c" "c < length (frames s)"
  shows "(binding (frames s ! c) x = Empty \<longrightarrow>
            (\<forall>v s'. evaluate model (Suc n)
                       (AssignmentExpr AssignmentExpression (Variable x) rhs) s
                     \<noteq> Some (Inr (v, s')))
          \<and> (\<forall>rvalue s1.
                evaluate model n rhs
                  (if temporaries (frames s ! c) x = None then assign c x Empty s else s)
                  = Some (Inr (rvalue, s1)) \<longrightarrow>
                evaluate model (Suc n)
                  (AssignmentExpr AssignmentExpression (Variable x) rhs) s
                  = Some (Inl AssertionFailed)))
       \<and> (binding (frames s ! c) x \<noteq> Empty \<longrightarrow>
            (\<forall>rvalue s1.
                evaluate model n rhs s = Some (Inr (rvalue, s1)) \<longrightarrow>
                evaluate model n (Variable x) s1
                  = Some (Inr (binding (frames s1 ! c) x, s1))
                \<and> binding (frames s1 ! c) x \<noteq> Empty
                \<and> evaluate model (Suc n)
                    (AssignmentExpr AssignmentExpression (Variable x) rhs) s
                    \<noteq> Some (Inl AssertionFailed)))"
proof (intro conjI impI allI)
  fix v s'
  assume u: "binding (frames s ! c) x = Empty"
  show "evaluate model (Suc n) (AssignmentExpr AssignmentExpression (Variable x) rhs) s
          \<noteq> Some (Inr (v, s'))"
    unfolding assignment_unbound [OF assms u]
    by (simp split: option.splits sum.splits prod.splits)
next
  fix rvalue s1
  assume u: "binding (frames s ! c) x = Empty"
    and r: "evaluate model n rhs
              (if temporaries (frames s ! c) x = None then assign c x Empty s else s)
            = Some (Inr (rvalue, s1))"
  show "evaluate model (Suc n) (AssignmentExpr AssignmentExpression (Variable x) rhs) s
          = Some (Inl AssertionFailed)"
    unfolding assignment_unbound [OF assms u] by (simp only: r option.case sum.case prod.case)
next
  fix rvalue s1
  assume b: "binding (frames s ! c) x \<noteq> Empty"
    and r: "evaluate model n rhs s = Some (Inr (rvalue, s1))"
  have p: "preserves {} s s1" using r by (rule evaluate_preserves)
  note c1 = preserves_current [OF p assms]
  from b c1(3) show b1: "binding (frames s1 ! c) x \<noteq> Empty" by simp
  show "evaluate model n (Variable x) s1 = Some (Inr (binding (frames s1 ! c) x, s1))"
    using r c1(1,2) b1 by (rule evaluate_Variable_bound)
  from assignment_bound [OF assms b r, of AssignmentExpression]
  show "evaluate model (Suc n) (AssignmentExpr AssignmentExpression (Variable x) rhs) s
          \<noteq> Some (Inl AssertionFailed)"
    by (cases rvalue) (auto simp: stored_value_def)
qed

theorem plain_assignment_reads_target_witness:
  "evaluate (\<lambda>f. \<lparr>arguments = [], body = BadNode\<rparr>) (Suc (Suc 0))
     (AssignmentExpr AssignmentExpression (Variable 0)
        (Literal (Integer (SVInt False [L1, L0, L1]))))
     ConstantEvaluator_new
   = Some (Inl AssertionFailed)
   \<and> evaluate (\<lambda>f. \<lparr>arguments = [], body = BadNode\<rparr>) (Suc 0) (Variable 0)
       \<lparr>frames = [\<lparr>temporaries = [0 \<mapsto> Integer (SVInt False [L1, L1, L0])], parent = None\<rparr>],
        currentFrame = Some 0\<rparr>
     = Some (Inr (Integer (SVInt False [L1, L1, L0]),
         \<lparr>frames = [\<lparr>temporaries = [0 \<mapsto> Integer (SVInt False [L1, L1, L0])], parent = None\<rparr>],
          currentFrame = Some 0\<rparr>))"
proof -
  let ?m = "\<lambda>f::nat. \<lparr>arguments = [], body = BadNode\<rparr>"
  let ?five = "Integer (SVInt False [L1, L0, L1])"
  let ?s = "\<lparr>frames = [\<lparr>temporaries = [0 \<mapsto> Integer (SVInt False [L1, L1, L0])], parent = None\<rparr>],
      currentFrame = Some (0::nat)\<rparr>"
  have h: "currentFrame ConstantEvaluator_new = Some 0"
    "0 < length (frames ConstantEvaluator_new)"
    by (simp_all add: ConstantEvaluator_new_def)
  have u: "binding (frames ConstantEvaluator_new ! 0) 0 = Empty"
    by (simp add: ConstantEvaluator_new_def binding_def)
  have r: "evaluate ?m (Suc 0) (Literal ?five)
             (if temporaries (frames ConstantEvaluator_new ! 0) 0 = None
              then assign 0 0 Empty ConstantEvaluator_new else ConstantEvaluator_new)
           = Some (Inr (?five, assign 0 0 Empty ConstantEvaluator_new))"
    by (simp add: evaluateLiteral_def ConstantEvaluator_new_def)
  have first: "evaluate ?m (Suc (Suc 0))
     (AssignmentExpr AssignmentExpression (Variable 0) (Literal ?five)) ConstantEvaluator_new
   = Some (Inl AssertionFailed)"
    using plain_assignment_reads_target [OF h, of 0 ?m "Suc 0" "Literal ?five",
        THEN conjunct1, rule_format, OF u, THEN conjunct2, rule_format, OF r] .
  have h': "currentFrame ?s = Some 0" "0 < length (frames ?s)"
    by simp_all
  have b: "binding (frames ?s ! 0) 0 \<noteq> Empty"
    by (simp add: binding_def)
  have r': "evaluate ?m (Suc 0) (Literal ?five) ?s = Some (Inr (?five, ?s))"
    by (simp add: evaluateLiteral_def)
  have "evaluate ?m (Suc 0) (Variable 0) ?s = Some (Inr (binding (frames ?s ! 0) 0, ?s))"
    using plain_assignment_reads_target [OF h', of 0 ?m "Suc 0" "Literal ?five",
        THEN conjunct2, rule_format, OF b r', THEN conjunct1] .
  then have second: "evaluate ?m (Suc 0) (Variable 0) ?s
      = Some (Inr (Integer (SVInt False [L1, L1, L0]), ?s))"
    by (simp add: binding_def)
  from first second show ?thesis by (intro conjI)
qed

section \<open>Compound assignment\<close>

lemma three_plus_four:
  "SVInt_plus (SVInt False [L1, L1, L0]) (SVInt False [L0, L0, L1]) = SVInt False [L1, L1, L1]"
  by code_simp

text \<open>
  C4. For a compound assignment whose target is bound in the current frame and
  whose right-hand side evaluates to an integer \<open>r\<close>: the left-hand value \<open>l\<close>
  that is combined is the one the target holds in the state after the
  right-hand side has been evaluated (a second evaluation of the lvalue
  expression, not the value at resolution); the assignment yields what the
  corresponding binary expression yields on \<open>l\<close> and \<open>r\<close>, and the target is
  then bound to that value. With \<open>x\<close> bound to 3, \<open>x += 4\<close> yields 7 and leaves
  \<open>x\<close> bound to 7.
\<close>

theorem compound_assignment_rereads:
  assumes "currentFrame s = Some c" "c < length (frames s)"
    and "binding (frames s ! c) x \<noteq> Empty"
    and "compound_operator kind = Some bk"
    and "evaluate model n rhs s = Some (Inr (Integer r, s1))"
  shows "\<exists>l res. binding (frames s1 ! c) x = Integer l
           \<and> evaluate model (Suc (Suc 0))
               (BinaryExpression bk (Literal (Integer l)) (Literal (Integer r))) s1
               = Some (Inr (res, s1))
           \<and> evaluate model (Suc n) (AssignmentExpr kind (Variable x) rhs) s
               = Some (Inr (res, assign c x res s1))
           \<and> binding (frames (assign c x res s1) ! c) x = res"
proof -
  have p: "preserves {} s s1" using assms(5) by (rule evaluate_preserves)
  note c1 = preserves_current [OF p assms(1,2)]
  from assignment_bound [OF assms(1-3,5), of kind] obtain l where
    l: "binding (frames s1 ! c) x = Integer l"
    and ev: "evaluate model (Suc n) (AssignmentExpr kind (Variable x) rhs) s =
               (case stored_value kind (Integer r) l r of
                  None \<Rightarrow> Some (Inl Unreachable)
                | Some w \<Rightarrow> Some (Inr (w, assign c x w s1)))"
    by auto
  from compound_operator_stored [OF assms(4), of "Integer r" l r model s1] obtain res where
    st: "stored_value kind (Integer r) l r = Some res"
    and bin: "evaluate model (Suc (Suc 0))
               (BinaryExpression bk (Literal (Integer l)) (Literal (Integer r))) s1
               = Some (Inr (res, s1))"
    by blast
  from ev st have "evaluate model (Suc n) (AssignmentExpr kind (Variable x) rhs) s
               = Some (Inr (res, assign c x res s1))"
    by simp
  moreover have "binding (frames (assign c x res s1) ! c) x = res"
    using c1(2) by (simp add: binding_assign)
  ultimately show ?thesis using l bin by blast
qed

theorem compound_assignment_rereads_witness:
  "evaluate (\<lambda>f. \<lparr>arguments = [], body = BadNode\<rparr>) (Suc (Suc 0))
     (AssignmentExpr AddAssignmentExpression (Variable 0)
        (Literal (Integer (SVInt False [L0, L0, L1]))))
     \<lparr>frames = [\<lparr>temporaries = [0 \<mapsto> Integer (SVInt False [L1, L1, L0])], parent = None\<rparr>],
      currentFrame = Some 0\<rparr>
   = Some (Inr (Integer (SVInt False [L1, L1, L1]),
        assign 0 0 (Integer (SVInt False [L1, L1, L1]))
          \<lparr>frames = [\<lparr>temporaries = [0 \<mapsto> Integer (SVInt False [L1, L1, L0])], parent = None\<rparr>],
           currentFrame = Some 0\<rparr>))"
proof -
  let ?m = "\<lambda>f::nat. \<lparr>arguments = [], body = BadNode\<rparr>"
  let ?s = "\<lparr>frames = [\<lparr>temporaries = [0 \<mapsto> Integer (SVInt False [L1, L1, L0])], parent = None\<rparr>],
      currentFrame = Some (0::nat)\<rparr>"
  have h: "currentFrame ?s = Some 0" "0 < length (frames ?s)"
    "binding (frames ?s ! 0) 0 \<noteq> Empty"
    "compound_operator AddAssignmentExpression = Some AddExpression"
    "evaluate ?m (Suc 0) (Literal (Integer (SVInt False [L0, L0, L1]))) ?s
       = Some (Inr (Integer (SVInt False [L0, L0, L1]), ?s))"
    by (simp_all add: binding_def evaluateLiteral_def compound_operator_def)
  from compound_assignment_rereads [OF h] obtain l res where
    l: "binding (frames ?s ! 0) 0 = Integer l"
    and bin: "evaluate ?m (Suc (Suc 0))
               (BinaryExpression AddExpression (Literal (Integer l))
                  (Literal (Integer (SVInt False [L0, L0, L1])))) ?s
               = Some (Inr (res, ?s))"
    and as: "evaluate ?m (Suc (Suc 0))
               (AssignmentExpr AddAssignmentExpression (Variable 0)
                  (Literal (Integer (SVInt False [L0, L0, L1])))) ?s
               = Some (Inr (res, assign 0 0 res ?s))"
    by blast
  from l have l': "l = SVInt False [L1, L1, L0]" by (simp add: binding_def)
  from bin have "res = Integer (SVInt False [L1, L1, L1])"
    unfolding l' by (simp add: evaluateBinary_def evaluateLiteral_def three_plus_four)
  with as show ?thesis by simp
qed

section \<open>Calls\<close>

lemma newFrame_apply:
  "newFrame s = Some (Inr (length (frames s),
     s\<lparr>frames := frames s @ [\<lparr>temporaries = Map.empty, parent = currentFrame s\<rparr>]\<rparr>))"
  by (simp add: newFrame_def)

lemma evaluateCall_returns:
  assumes args: "bindArguments ev (length (frames s)) (arguments subroutine) actuals 0
            (s\<lparr>frames := frames s @ [\<lparr>temporaries = Map.empty, parent = currentFrame s\<rparr>]\<rparr>)
            = Some (Inr (u, s1))"
    and body: "ev (body subroutine) (s1\<lparr>currentFrame := Some (length (frames s))\<rparr>)
            = Some (Inr (v, s4))"
    and nf: "length (frames s) < length (frames s4)"
  shows "evaluateCall ev subroutine actuals s =
           Some (Inr (v, s4\<lparr>currentFrame := parent (frames s4 ! length (frames s)),
                          frames := take (length (frames s)) (frames s4)\<rparr>))"
proof -
  let ?nf = "length (frames s)"
  let ?s0 = "s\<lparr>frames := frames s @ [\<lparr>temporaries = Map.empty, parent = currentFrame s\<rparr>]\<rparr>"
  note a = bind_returns [where m = newFrame and s = s, OF newFrame_apply]
  note b = bind_returns [where m = "bindArguments ev ?nf (arguments subroutine) actuals 0"
      and s = ?s0, OF args]
  have c0: "setCurrentFrame (Some ?nf) s1 = Some (Inr ((), s1\<lparr>currentFrame := Some ?nf\<rparr>))"
    by (simp add: setCurrentFrame_def)
  note c = bind_returns [where m = "setCurrentFrame (Some ?nf)" and s = s1, OF c0]
  note d = bind_returns [where m = "ev (body subroutine)"
      and s = "s1\<lparr>currentFrame := Some ?nf\<rparr>", OF body]
  have e0: "getParent ?nf s4 = Some (Inr (parent (frames s4 ! ?nf), s4))"
    using nf by (simp add: getParent_def)
  note e = bind_returns [where m = "getParent ?nf" and s = s4, OF e0]
  show ?thesis
    unfolding evaluateCall_def
    by (simp only: a b c d e) (simp add: bind_def setCurrentFrame_def destroyFrame_def)
qed

text \<open>
  C6. For a call expression whose arguments have been bound (leaving the state
  \<open>s1\<close>) and whose body evaluation, started with the new frame current,
  completes with the value \<open>v\<close>: the call returns exactly \<open>v\<close>; afterwards the
  current frame pointer equals its value before the call; the live frames are
  again those below the callee's frame, so that the callee's frame and its
  bindings are gone; and the caller's side respects the frame discipline.
\<close>

theorem call_restores_frame:
  assumes "bindArguments (evaluate model n) (length (frames s)) (arguments (model f)) actuals 0
            (s\<lparr>frames := frames s @ [\<lparr>temporaries = Map.empty, parent = currentFrame s\<rparr>]\<rparr>)
            = Some (Inr (u, s1))"
    and "evaluate model n (body (model f)) (s1\<lparr>currentFrame := Some (length (frames s))\<rparr>)
            = Some (Inr (v, s4))"
  shows "\<exists>s'. evaluate model (Suc n) (CallExpression f actuals) s = Some (Inr (v, s'))
           \<and> currentFrame s' = currentFrame s
           \<and> length (frames s') = length (frames s)
           \<and> frames s' = take (length (frames s)) (frames s4)
           \<and> preserves {} s s'"
proof -
  let ?nf = "length (frames s)"
  let ?s0 = "s\<lparr>frames := frames s @ [\<lparr>temporaries = Map.empty, parent = currentFrame s\<rparr>]\<rparr>"
  let ?s' = "s4\<lparr>currentFrame := parent (frames s4 ! ?nf), frames := take ?nf (frames s4)\<rparr>"
  have p1: "preserves {?nf} ?s0 s1"
    by (rule bindArguments_preserves [OF _ assms(1)]) (erule evaluate_preserves)
  have p2: "preserves {} (s1\<lparr>currentFrame := Some ?nf\<rparr>) s4"
    using assms(2) by (rule evaluate_preserves)
  from p1 have len1: "length (frames s1) = Suc ?nf" by (simp add: preserves_def)
  with p2 have len4: "length (frames s4) = Suc ?nf" by (simp add: preserves_def)
  then have nf: "?nf < length (frames s4)" by simp
  have call: "evaluateCall (evaluate model n) (model f) actuals s = Some (Inr (v, ?s'))"
    using assms nf by (rule evaluateCall_returns)
  then have p: "preserves {} s ?s'"
    by (rule evaluateCall_preserves [rotated]) (erule evaluate_preserves)
  have "evaluate model (Suc n) (CallExpression f actuals) s = Some (Inr (v, ?s'))"
    using call by simp
  moreover have "currentFrame ?s' = currentFrame s" "length (frames ?s') = length (frames s)"
    using p by (simp_all only: preserves_def)
  moreover have "frames ?s' = take ?nf (frames s4)" by simp
  ultimately show ?thesis using p by blast
qed

theorem call_restores_frame_witness:
  "\<exists>s'. evaluate (\<lambda>f. \<lparr>arguments = [Suc 0], body = StatementList [ReturnStatement (Variable (Suc 0))]\<rparr>)
           (Suc (Suc (Suc (Suc 0))))
           (CallExpression 0 [Literal (Integer (SVInt False [L1, L0, L1]))])
           ConstantEvaluator_new
         = Some (Inr (Integer (SVInt False [L1, L0, L1]), s'))
       \<and> currentFrame s' = currentFrame ConstantEvaluator_new
       \<and> length (frames s') = length (frames ConstantEvaluator_new)"
proof -
  let ?m = "\<lambda>f::nat. \<lparr>arguments = [Suc 0], body = StatementList [ReturnStatement (Variable (Suc 0))]\<rparr>"
  let ?five = "Integer (SVInt False [L1, L0, L1])"
  let ?s1 = "\<lparr>frames = [\<lparr>temporaries = Map.empty, parent = None\<rparr>,
                         \<lparr>temporaries = [Suc 0 \<mapsto> ?five], parent = Some 0\<rparr>],
              currentFrame = Some 0\<rparr>"
  have len: "length (frames ConstantEvaluator_new) = Suc 0"
    by (simp add: ConstantEvaluator_new_def)
  have h1: "bindArguments (evaluate ?m (Suc (Suc (Suc 0)))) (length (frames ConstantEvaluator_new))
              (arguments (?m 0)) [Literal ?five] 0
              (ConstantEvaluator_new\<lparr>frames := frames ConstantEvaluator_new @
                 [\<lparr>temporaries = Map.empty, parent = currentFrame ConstantEvaluator_new\<rparr>]\<rparr>)
            = Some (Inr ((), ?s1))"
    by (simp add: len)
       (simp add: ConstantEvaluator_new_def evaluateLiteral_def bind_def subscript_def
          store_def assign_def)
  have h2: "evaluate ?m (Suc (Suc (Suc 0))) (body (?m 0))
              (?s1\<lparr>currentFrame := Some (length (frames ConstantEvaluator_new))\<rparr>)
            = Some (Inr (?five, ?s1\<lparr>currentFrame := Some (Suc 0)\<rparr>))"
    by (simp add: len evaluateStatementList_def evaluateReturn_def evaluateVariable_def
          bind_def currentSlot_def subscript_def load_def)
  from call_restores_frame [OF h1 h2] obtain s' where
    "evaluate ?m (Suc (Suc (Suc (Suc 0)))) (CallExpression 0 [Literal ?five]) ConstantEvaluator_new
       = Some (Inr (?five, s'))"
    "currentFrame s' = currentFrame ConstantEvaluator_new"
    "length (frames s') = length (frames ConstantEvaluator_new)"
    by blast
  then show ?thesis by (intro exI conjI)
qed

section \<open>Evaluation is independent of the frames that are not current\<close>

lemma map_result_simps [simp]:
  "map_result h None = None"
  "map_result h (Some (Inl e)) = Some (Inl e)"
  "map_result h (Some (Inr (a, s))) = Some (Inr (a, h s))"
  by (simp_all add: map_result_def)

lemma currentFrame_overwrite [simp]: "currentFrame (overwrite j g s) = currentFrame s"
  by (simp add: overwrite_def)

lemma length_frames_overwrite [simp]: "length (frames (overwrite j g s)) = length (frames s)"
  by (simp add: overwrite_def)

lemma frames_overwrite_other [simp]: "i \<noteq> j \<Longrightarrow> frames (overwrite j g s) ! i = frames s ! i"
  by (simp add: overwrite_def)

lemma frames_overwrite_same [simp]:
  "j < length (frames s) \<Longrightarrow> frames (overwrite j g s) ! j = g"
  by (simp add: overwrite_def)

lemma assign_overwrite:
  "a \<noteq> j \<Longrightarrow> assign a k v (overwrite j g s) = overwrite j g (assign a k v s)"
  by (simp add: assign_def overwrite_def list_update_swap)

lemma unaffected_ret [simp]: "unaffected j g (ret a) s"
  by (simp add: unaffected_def)

lemma unaffected_throw [simp]: "unaffected j g (throw e) s"
  by (simp add: unaffected_def)

lemma unaffected_lift [simp]: "unaffected j g (lift r) s"
  by (cases r) (simp_all add: lift_def)

lemma unaffected_bind:
  assumes "unaffected j g m s"
    and "\<And>a s'. m s = Some (Inr (a, s')) \<Longrightarrow> unaffected j g (f a) s'"
  shows "unaffected j g (bind m f) s"
proof (cases "m s")
  case None
  with assms(1) show ?thesis by (simp add: unaffected_def bind_def)
next
  case (Some r)
  show ?thesis
  proof (cases r)
    case (Inl e)
    with Some assms(1) show ?thesis by (simp add: unaffected_def bind_def)
  next
    case (Inr as)
    obtain a s' where "as = (a, s')" by (cases as)
    with Some Inr have m: "m s = Some (Inr (a, s'))" by simp
    with assms(1) have "m (overwrite j g s) = Some (Inr (a, overwrite j g s'))"
      by (simp add: unaffected_def)
    with m assms(2) [OF m] show ?thesis by (simp add: unaffected_def bind_def)
  qed
qed

lemma unaffected_subscript:
  "a \<noteq> j \<Longrightarrow> unaffected j g (subscript a k) s"
  by (simp add: unaffected_def subscript_def assign_overwrite split: option.splits)

lemma unaffected_currentSlot:
  "currentFrame s \<noteq> Some j \<Longrightarrow> unaffected j g (currentSlot k) s"
  using unaffected_subscript [of _ j g k s]
  by (cases "currentFrame s") (auto simp: unaffected_def currentSlot_def)

lemma unaffected_load:
  "fst (storage lv) \<noteq> j \<Longrightarrow> unaffected j g (load lv) s"
  by (simp add: unaffected_def load_def split: option.splits)

lemma unaffected_store:
  "fst (storage lv) \<noteq> j \<Longrightarrow> unaffected j g (store lv v) s"
  by (simp add: unaffected_def store_def assign_overwrite split: option.splits)

lemma unaffected_evaluateVariable:
  assumes "currentFrame s \<noteq> Some j"
  shows "unaffected j g (evaluateVariable x) s"
  unfolding evaluateVariable_def
proof (intro unaffected_bind)
  show "unaffected j g (currentSlot x) s" using assms by (rule unaffected_currentSlot)
next
  fix slot s'
  assume "currentSlot x s = Some (Inr (slot, s'))"
  from currentSlot_returnsD [OF this] assms have "fst (storage slot) \<noteq> j" by auto
  then show "unaffected j g (load slot) s'" by (rule unaffected_load)
next
  fix val s'' show "unaffected j g (if val = Empty then throw AssertionFailed else ret val) s''"
    by simp
qed

lemma side_preserved:
  assumes "preserves X s s'" "j < length (frames s)" "currentFrame s \<noteq> Some j"
  shows "j < length (frames s')" "currentFrame s' \<noteq> Some j"
  using assms by (simp_all add: preserves_def)

lemma unaffected_evaluateUnary:
  assumes "unaffected j g (ev e) s"
  shows "unaffected j g (evaluateUnary ev kind e) s"
  unfolding evaluateUnary_def
proof (intro unaffected_bind)
  show "unaffected j g (ev e) s" by (rule assms)
next
  fix cv s' show "unaffected j g (lift (integer cv)) s'" by simp
next
  fix v s''
  show "unaffected j g
         (case kind of
            UnaryPlusExpression \<Rightarrow> ret (Integer v)
          | UnaryMinusExpression \<Rightarrow> ret (Integer (SVInt_neg v))
          | UnaryBitwiseNotExpression \<Rightarrow> ret (Integer (SVInt_complement v))
          | UnaryBitwiseAndExpression \<Rightarrow> ret (Integer (SVInt_of_logic (reductionAnd v)))
          | UnaryBitwiseOrExpression \<Rightarrow> ret (Integer (SVInt_of_logic (reductionOr v)))
          | UnaryBitwiseXorExpression \<Rightarrow> ret (Integer (SVInt_of_logic (reductionXor v)))
          | UnaryBitwiseNandExpression \<Rightarrow>
              ret (Integer (SVInt_of_logic (logic_not (reductionAnd v))))
          | UnaryBitwiseNorExpression \<Rightarrow>
              ret (Integer (SVInt_of_logic (logic_not (reductionOr v))))
          | UnaryBitwiseXnorExpression \<Rightarrow>
              ret (Integer (SVInt_of_logic (logic_not (reductionXor v))))
          | UnaryLogicalNotExpression \<Rightarrow> ret (Integer (SVInt_of_logic (SVInt_lnot v)))
          | _ \<Rightarrow> throw Unreachable) s''"
    by (cases kind) simp_all
qed

lemma unaffected_evaluateBinary:
  assumes "unaffected j g (ev l) s"
    and "\<And>lcv s1. ev l s = Some (Inr (lcv, s1)) \<Longrightarrow> unaffected j g (ev r) s1"
  shows "unaffected j g (evaluateBinary ev kind l r) s"
  unfolding evaluateBinary_def
proof (rule unaffected_bind [OF assms(1)], rule unaffected_bind)
  fix lcv s1 show "unaffected j g (lift (integer lcv)) s1" by simp
next
  fix lcv s1 li s2
  assume a: "ev l s = Some (Inr (lcv, s1))" and b: "lift (integer lcv) s1 = Some (Inr (li, s2))"
  from b have s2: "s2 = s1" by (simp add: lift_integer_returnsD)
  show "unaffected j g
          (bind (ev r) (\<lambda>rcv. bind (lift (integer rcv)) (\<lambda>ri.
             case kind of
               AddExpression \<Rightarrow> ret (Integer (SVInt_plus li ri))
             | SubtractExpression \<Rightarrow> ret (Integer (SVInt_minus li ri))
             | MultiplyExpression \<Rightarrow> ret (Integer (SVInt_times li ri))
             | DivideExpression \<Rightarrow> ret (Integer (SVInt_divide li ri))
             | ModExpression \<Rightarrow> ret (Integer (SVInt_mod li ri))
             | BinaryAndExpression \<Rightarrow> ret (Integer (SVInt_and li ri))
             | BinaryOrExpression \<Rightarrow> ret (Integer (SVInt_or li ri))
             | BinaryXorExpression \<Rightarrow> ret (Integer (SVInt_xor li ri))
             | BinaryXnorExpression \<Rightarrow> ret (Integer (xnor li ri))
             | EqualityExpression \<Rightarrow> ret (Integer (SVInt_of_logic (SVInt_eq li ri)))
             | InequalityExpression \<Rightarrow> ret (Integer (SVInt_of_logic (SVInt_ne li ri)))
             | CaseEqualityExpression \<Rightarrow>
                 ret (Integer (SVInt_of_logic (logic_of_bool (exactlyEqual li ri))))
             | CaseInequalityExpression \<Rightarrow>
                 ret (Integer (SVInt_of_logic (logic_of_bool (\<not> exactlyEqual li ri))))
             | GreaterThanEqualExpression \<Rightarrow> ret (Integer (SVInt_of_logic (SVInt_ge li ri)))
             | GreaterThanExpression \<Rightarrow> ret (Integer (SVInt_of_logic (SVInt_gt li ri)))
             | LessThanEqualExpression \<Rightarrow> ret (Integer (SVInt_of_logic (SVInt_le li ri)))
             | LessThanExpression \<Rightarrow> ret (Integer (SVInt_of_logic (SVInt_lt li ri)))
             | _ \<Rightarrow> throw Unreachable))) s2"
    unfolding s2
  proof (rule unaffected_bind [OF assms(2) [OF a]], rule unaffected_bind)
    fix rcv s3 show "unaffected j g (lift (integer rcv)) s3" by simp
  next
    fix ri s4
    show "unaffected j g
            (case kind of
               AddExpression \<Rightarrow> ret (Integer (SVInt_plus li ri))
             | SubtractExpression \<Rightarrow> ret (Integer (SVInt_minus li ri))
             | MultiplyExpression \<Rightarrow> ret (Integer (SVInt_times li ri))
             | DivideExpression \<Rightarrow> ret (Integer (SVInt_divide li ri))
             | ModExpression \<Rightarrow> ret (Integer (SVInt_mod li ri))
             | BinaryAndExpression \<Rightarrow> ret (Integer (SVInt_and li ri))
             | BinaryOrExpression \<Rightarrow> ret (Integer (SVInt_or li ri))
             | BinaryXorExpression \<Rightarrow> ret (Integer (SVInt_xor li ri))
             | BinaryXnorExpression \<Rightarrow> ret (Integer (xnor li ri))
             | EqualityExpression \<Rightarrow> ret (Integer (SVInt_of_logic (SVInt_eq li ri)))
             | InequalityExpression \<Rightarrow> ret (Integer (SVInt_of_logic (SVInt_ne li ri)))
             | CaseEqualityExpression \<Rightarrow>
                 ret (Integer (SVInt_of_logic (logic_of_bool (exactlyEqual li ri))))
             | CaseInequalityExpression \<Rightarrow>
                 ret (Integer (SVInt_of_logic (logic_of_bool (\<not> exactlyEqual li ri))))
             | GreaterThanEqualExpression \<Rightarrow> ret (Integer (SVInt_of_logic (SVInt_ge li ri)))
             | GreaterThanExpression \<Rightarrow> ret (Integer (SVInt_of_logic (SVInt_gt li ri)))
             | LessThanEqualExpression \<Rightarrow> ret (Integer (SVInt_of_logic (SVInt_le li ri)))
             | LessThanExpression \<Rightarrow> ret (Integer (SVInt_of_logic (SVInt_lt li ri)))
             | _ \<Rightarrow> throw Unreachable) s4"
      by (cases kind) simp_all
  qed
qed

lemma unaffected_evaluateAssignment:
  assumes un: "\<And>e t. j < length (frames t) \<Longrightarrow> currentFrame t \<noteq> Some j \<Longrightarrow>
                 unaffected j g (ev e) t"
    and pr: "\<And>e t v t'. ev e t = Some (Inr (v, t')) \<Longrightarrow> preserves {} t t'"
    and side: "j < length (frames s)" "currentFrame s \<noteq> Some j"
  shows "unaffected j g (evaluateAssignment ev kind left right) s"
proof (cases left)
  case (Variable x)
  show ?thesis
    unfolding evaluateAssignment_stored Variable evaluateLValue_def BoundNode.case
  proof (rule unaffected_bind, rule unaffected_bind)
    show "unaffected j g (currentSlot x) s" using side(2) by (rule unaffected_currentSlot)
  next
    fix slot s' show "unaffected j g (ret (True, slot)) s'" by simp
  next
    fix oklv s0
    assume "bind (currentSlot x) (\<lambda>slot. ret (True, slot)) s = Some (Inr (oklv, s0))"
    then obtain slot where slot: "currentSlot x s = Some (Inr (slot, s0))"
      and oklv: "oklv = (True, slot)"
      by (auto simp: bind_returns_iff)
    from currentSlot_returnsD [OF slot] obtain c where c: "currentFrame s = Some c"
      "c < length (frames s)" "slot = \<lparr>storage = (c, x)\<rparr>"
      "s0 = (if temporaries (frames s ! c) x = None then assign c x Empty s else s)"
      by blast
    from c side(2) have cj: "fst (storage slot) \<noteq> j" by auto
    have p0: "preserves {} s s0"
      unfolding c(4) using c(1,2) by (intro preserves_slot_created) simp_all
    note side0 = side_preserved [OF p0 side]
    show "unaffected j g
           (case oklv of (ok, lvalue) \<Rightarrow>
              if \<not> ok then ret Empty
              else bind (ev right) (\<lambda>rvalue. bind (ev (Variable x)) (\<lambda>lcv.
                   bind (lift (integer lcv)) (\<lambda>l. bind (lift (integer rvalue)) (\<lambda>r.
                   bind (case stored_value kind rvalue l r of
                           None \<Rightarrow> throw Unreachable
                         | Some v \<Rightarrow> store lvalue v) (\<lambda>_. load lvalue)))))) s0"
      unfolding oklv prod.case
    proof (simp only: not_True_eq_False if_False, rule unaffected_bind)
      show "unaffected j g (ev right) s0" using side0 by (rule un)
    next
      fix rvalue s1
      assume r1: "ev right s0 = Some (Inr (rvalue, s1))"
      note side1 = side_preserved [OF pr [OF r1] side0]
      show "unaffected j g
             (bind (ev (Variable x)) (\<lambda>lcv.
                bind (lift (integer lcv)) (\<lambda>l. bind (lift (integer rvalue)) (\<lambda>r.
                bind (case stored_value kind rvalue l r of
                        None \<Rightarrow> throw Unreachable
                      | Some v \<Rightarrow> store slot v) (\<lambda>_. load slot))))) s1"
      proof (rule unaffected_bind [OF un [OF side1]], rule unaffected_bind, simp,
             rule unaffected_bind, simp, rule unaffected_bind)
        fix l r t
        show "unaffected j g
                (case stored_value kind rvalue l r of
                   None \<Rightarrow> throw Unreachable
                 | Some v \<Rightarrow> store slot v) t"
          using cj by (cases "stored_value kind rvalue l r") (simp_all add: unaffected_store)
      next
        fix t show "unaffected j g (load slot) t" using cj by (rule unaffected_load)
      qed
    qed
  qed
qed (simp_all add: evaluateAssignment_stored evaluateLValue_def)

lemma unaffected_newFrame:
  "j < length (frames s) \<Longrightarrow> unaffected j g newFrame s"
  by (simp add: unaffected_def newFrame_def overwrite_def list_update_append1)

lemma unaffected_setCurrentFrame: "unaffected j g (setCurrentFrame p) s"
  by (simp add: unaffected_def setCurrentFrame_def overwrite_def)

lemma unaffected_getParent: "a \<noteq> j \<Longrightarrow> unaffected j g (getParent a) s"
  by (simp add: unaffected_def getParent_def)

lemma unaffected_destroyFrame: "j < a \<Longrightarrow> unaffected j g (destroyFrame a) s"
  by (simp add: unaffected_def destroyFrame_def overwrite_def take_update_swap)

lemma unaffected_bindArguments:
  assumes un: "\<And>e t. j < length (frames t) \<Longrightarrow> currentFrame t \<noteq> Some j \<Longrightarrow>
                 unaffected j g (ev e) t"
    and pr: "\<And>e t v t'. ev e t = Some (Inr (v, t')) \<Longrightarrow> preserves {} t t'"
    and nf: "nf \<noteq> j"
  shows "j < length (frames s) \<Longrightarrow> currentFrame s \<noteq> Some j \<Longrightarrow>
         unaffected j g (bindArguments ev nf formals actuals i) s"
proof (induction formals arbitrary: i s)
  case Nil
  show ?case by (simp only: bindArguments.simps unaffected_ret)
next
  case (Cons formal formals)
  show ?case
  proof (cases "i < length actuals")
    case False
    then show ?thesis by (simp only: bindArguments.simps if_False unaffected_throw)
  next
    case True
    have "unaffected j g
            (bind (ev (actuals ! i)) (\<lambda>v. bind (subscript nf formal) (\<lambda>slot.
               bind (store slot v) (\<lambda>_. bindArguments ev nf formals actuals (Suc i))))) s"
    proof (rule unaffected_bind [OF un [OF Cons.prems]], rule unaffected_bind)
      fix v s1 show "unaffected j g (subscript nf formal) s1"
        using nf by (rule unaffected_subscript)
    next
      fix v s1 slot s2
      assume a: "ev (actuals ! i) s = Some (Inr (v, s1))"
        and b: "subscript nf formal s1 = Some (Inr (slot, s2))"
      note side1 = side_preserved [OF pr [OF a] Cons.prems]
      from subscript_returnsD [OF b] have nf1: "nf < length (frames s1)"
        and slot: "slot = \<lparr>storage = (nf, formal)\<rparr>"
        and s2: "s2 = (if temporaries (frames s1 ! nf) formal = None
                       then assign nf formal Empty s1 else s1)"
        by simp_all
      have side2: "j < length (frames s2)" "currentFrame s2 \<noteq> Some j"
        using side1 by (simp_all add: s2)
      show "unaffected j g
              (bind (store slot v) (\<lambda>_. bindArguments ev nf formals actuals (Suc i))) s2"
      proof (rule unaffected_bind)
        show "unaffected j g (store slot v) s2"
          using nf slot by (intro unaffected_store) simp
      next
        fix w s3
        assume "store slot v s2 = Some (Inr (w, s3))"
        from store_returnsD [OF this] have "s3 = assign (fst (storage slot)) (snd (storage slot)) v s2"
          by simp
        with side2 have "j < length (frames s3)" "currentFrame s3 \<noteq> Some j" by simp_all
        then show "unaffected j g (bindArguments ev nf formals actuals (Suc i)) s3"
          by (rule Cons.IH)
      qed
    qed
    with True show ?thesis by (simp only: bindArguments.simps if_True)
  qed
qed

lemma unaffected_evaluateCall:
  assumes un: "\<And>e t. j < length (frames t) \<Longrightarrow> currentFrame t \<noteq> Some j \<Longrightarrow>
                 unaffected j g (ev e) t"
    and pr: "\<And>e t v t'. ev e t = Some (Inr (v, t')) \<Longrightarrow> preserves {} t t'"
    and side: "j < length (frames s)" "currentFrame s \<noteq> Some j"
  shows "unaffected j g (evaluateCall ev subroutine actuals) s"
  unfolding evaluateCall_def
proof (rule unaffected_bind [OF unaffected_newFrame [OF side(1)]])
  fix nf s0
  assume "newFrame s = Some (Inr (nf, s0))"
  then have nf: "nf = length (frames s)"
    and s0: "s0 = s\<lparr>frames := frames s @ [\<lparr>temporaries = Map.empty, parent = currentFrame s\<rparr>]\<rparr>"
    by (simp_all add: newFrame_def)
  from nf side(1) have nfj: "nf \<noteq> j" "j < nf" by simp_all
  have side0: "j < length (frames s0)" "currentFrame s0 \<noteq> Some j"
    using side by (simp_all add: s0)
  show "unaffected j g
          (bind (bindArguments ev nf (arguments subroutine) actuals 0) (\<lambda>_.
           bind (setCurrentFrame (Some nf)) (\<lambda>_.
           bind (ev (body subroutine)) (\<lambda>result.
           bind (getParent nf) (\<lambda>p.
           bind (setCurrentFrame p) (\<lambda>_.
           bind (destroyFrame nf) (\<lambda>_. ret result))))))) s0"
  proof (rule unaffected_bind)
    show "unaffected j g (bindArguments ev nf (arguments subroutine) actuals 0) s0"
      using un pr nfj(1) side0 by (rule unaffected_bindArguments)
  next
    fix u s1
    assume b: "bindArguments ev nf (arguments subroutine) actuals 0 s0 = Some (Inr (u, s1))"
    have "preserves {nf} s0 s1"
      by (rule bindArguments_preserves [OF _ b]) (erule pr)
    note side1 = side_preserved [OF this side0]
    show "unaffected j g
            (bind (setCurrentFrame (Some nf)) (\<lambda>_.
             bind (ev (body subroutine)) (\<lambda>result.
             bind (getParent nf) (\<lambda>p.
             bind (setCurrentFrame p) (\<lambda>_.
             bind (destroyFrame nf) (\<lambda>_. ret result)))))) s1"
    proof (rule unaffected_bind [OF unaffected_setCurrentFrame])
      fix w sb
      assume "setCurrentFrame (Some nf) s1 = Some (Inr (w, sb))"
      then have sb: "sb = s1\<lparr>currentFrame := Some nf\<rparr>" by (simp add: setCurrentFrame_def)
      have sideb: "j < length (frames sb)" "currentFrame sb \<noteq> Some j"
        using side1 nfj by (simp_all add: sb)
      show "unaffected j g
              (bind (ev (body subroutine)) (\<lambda>result.
               bind (getParent nf) (\<lambda>p.
               bind (setCurrentFrame p) (\<lambda>_.
               bind (destroyFrame nf) (\<lambda>_. ret result))))) sb"
      proof (rule unaffected_bind [OF un [OF sideb]],
             rule unaffected_bind [OF unaffected_getParent [OF nfj(1)]],
             rule unaffected_bind [OF unaffected_setCurrentFrame],
             rule unaffected_bind [OF unaffected_destroyFrame [OF nfj(2)]])
        fix result t show "unaffected j g (ret result) t" by simp
      qed
    qed
  qed
qed

lemma evaluate_unaffected:
  "j < length (frames s) \<Longrightarrow> currentFrame s \<noteq> Some j \<Longrightarrow>
   unaffected j g (evaluate model n e) s"
proof (induction n arbitrary: e s)
  case 0
  show ?case by (simp add: unaffected_def)
next
  case (Suc n)
  note side = Suc.prems
  note IH = Suc.IH
  have pr: "preserves {} t t'" if "evaluate model n e' t = Some (Inr (v, t'))" for e' t v t'
    using that by (rule evaluate_preserves)
  show ?case
  proof (cases e)
    case BadNode
    then show ?thesis by (simp add: unaffected_def)
  next
    case (Literal c)
    then show ?thesis by (simp add: unaffected_def evaluateLiteral_def)
  next
    case (Parameter c)
    then show ?thesis by (simp add: unaffected_def evaluateParameter_def)
  next
    case (Variable x)
    have "evaluate model (Suc n) (Variable x) = evaluateVariable x" by (rule evaluate_Variable)
    with Variable unaffected_evaluateVariable [OF side(2)] show ?thesis by simp
  next
    case (UnaryExpression kind a)
    have "evaluate model (Suc n) (UnaryExpression kind a) = evaluateUnary (evaluate model n) kind a"
      by (rule ext) simp
    with UnaryExpression unaffected_evaluateUnary [OF IH [OF side]] show ?thesis by simp
  next
    case (BinaryExpression kind l r)
    have "evaluate model (Suc n) (BinaryExpression kind l r)
            = evaluateBinary (evaluate model n) kind l r"
      by (rule ext) simp
    moreover have "unaffected j g (evaluateBinary (evaluate model n) kind l r) s"
    proof (rule unaffected_evaluateBinary [OF IH [OF side]])
      fix lcv s1
      assume "evaluate model n l s = Some (Inr (lcv, s1))"
      from side_preserved [OF pr [OF this] side] show "unaffected j g (evaluate model n r) s1"
        by (rule IH)
    qed
    ultimately show ?thesis using BinaryExpression by simp
  next
    case (AssignmentExpr kind l r)
    have "evaluate model (Suc n) (AssignmentExpr kind l r)
            = evaluateAssignment (evaluate model n) kind l r"
      by (rule ext) simp
    moreover have "unaffected j g (evaluateAssignment (evaluate model n) kind l r) s"
      using IH pr side by (rule unaffected_evaluateAssignment)
    ultimately show ?thesis using AssignmentExpr by simp
  next
    case (CallExpression f actuals)
    have "evaluate model (Suc n) (CallExpression f actuals)
            = evaluateCall (evaluate model n) (model f) actuals"
      by (rule ext) simp
    moreover have "unaffected j g (evaluateCall (evaluate model n) (model f) actuals) s"
      using IH pr side by (rule unaffected_evaluateCall)
    ultimately show ?thesis using CallExpression by simp
  next
    case (StatementList list)
    show ?thesis
    proof (cases list)
      case Nil
      with StatementList show ?thesis by (simp add: unaffected_def evaluateStatementList_def)
    next
      case (Cons item rest)
      have "evaluate model (Suc n) (StatementList (item # rest)) = evaluate model n item"
        by (rule ext) (simp add: evaluateStatementList_def)
      with StatementList Cons IH [OF side, of item] show ?thesis by simp
    qed
  next
    case (ReturnStatement a)
    have "evaluate model (Suc n) (ReturnStatement a) = evaluate model n a"
      by (rule ext) (simp add: evaluateReturn_def)
    with ReturnStatement IH [OF side, of a] show ?thesis by simp
  qed
qed

section \<open>Argument evaluation\<close>

lemma with_temporaries_simps [simp]:
  "currentFrame (with_temporaries nf T s) = currentFrame s"
  "length (frames (with_temporaries nf T s)) = length (frames s)"
  "nf < length (frames s) \<Longrightarrow> temporaries (frames (with_temporaries nf T s) ! nf) = T"
  "nf < length (frames s) \<Longrightarrow>
     with_temporaries nf T' (with_temporaries nf T s) = with_temporaries nf T' s"
  by (simp_all add: with_temporaries_def overwrite_def)

lemma with_temporaries_same:
  "nf < length (frames s) \<Longrightarrow> temporaries (frames s ! nf) = T \<Longrightarrow> with_temporaries nf T s = s"
  by (auto simp: with_temporaries_def overwrite_def)

lemma assign_with_temporaries:
  "assign nf k v s = with_temporaries nf ((temporaries (frames s ! nf))(k \<mapsto> v)) s"
  by (simp add: assign_def with_temporaries_def overwrite_def)

lemma bind_slot_store:
  assumes "nf < length (frames t)"
  shows "bind (subscript nf formal) (\<lambda>slot. bind (store slot v) k) t
           = k () (with_temporaries nf ((temporaries (frames t ! nf))(formal \<mapsto> v)) t)"
proof -
  let ?t1 = "if temporaries (frames t ! nf) formal = None then assign nf formal Empty t else t"
  have a0: "subscript nf formal t = Some (Inr (\<lparr>storage = (nf, formal)\<rparr>, ?t1))"
    using assms by (rule subscript_valid)
  note a = bind_returns [where m = "subscript nf formal" and s = t, OF a0]
  have len: "nf < length (frames ?t1)" using assms by simp
  have slot: "temporaries (frames ?t1 ! nf) formal \<noteq> None"
    using assms by auto
  then obtain old where "temporaries (frames ?t1 ! nf) formal = Some old" by blast
  with len have b0: "store \<lparr>storage = (nf, formal)\<rparr> v ?t1
      = Some (Inr ((), assign nf formal v ?t1))"
    by (rule store_valid)
  note b = bind_returns [where m = "store \<lparr>storage = (nf, formal)\<rparr> v" and s = ?t1, OF b0]
  have "assign nf formal v ?t1
          = with_temporaries nf ((temporaries (frames t ! nf))(formal \<mapsto> v)) t"
    using assms by (auto simp: assign_with_temporaries)
  then show ?thesis by (simp only: a b)
qed

lemma bindFormals_result:
  "nf < length (frames t) \<Longrightarrow> length vs = length formals \<Longrightarrow>
   bindFormals nf formals vs t
     = Some (Inr ((), with_temporaries nf
          (bound_formals (temporaries (frames t ! nf)) formals vs) t))"
proof (induction formals arbitrary: vs t)
  case Nil
  then show ?case by (simp add: with_temporaries_same)
next
  case (Cons formal formals)
  then obtain v vs' where vs: "vs = v # vs'" by (cases vs) simp_all
  with Cons.prems have len: "length vs' = length formals" by simp
  let ?t1 = "with_temporaries nf ((temporaries (frames t ! nf))(formal \<mapsto> v)) t"
  have "bindFormals nf (formal # formals) (v # vs') t = bindFormals nf formals vs' ?t1"
    using Cons.prems(1) by (simp add: bind_slot_store)
  also have "\<dots> = Some (Inr ((), with_temporaries nf
          (bound_formals (temporaries (frames ?t1 ! nf)) formals vs') ?t1))"
    using Cons.prems(1) len by (intro Cons.IH) simp_all
  finally show ?case using Cons.prems(1) vs by simp
qed

lemma evaluateArguments_returnsD:
  assumes pr: "\<And>e t v t'. ev e t = Some (Inr (v, t')) \<Longrightarrow> preserves {} t t'"
  shows "evaluateArguments ev caller nf formals actuals i t = Some (Inr (vs, t')) \<Longrightarrow>
         length vs = length formals \<and> preserves {} t t'"
proof (induction formals arbitrary: i t vs t')
  case Nil
  then show ?case by simp
next
  case (Cons formal formals)
  from Cons.prems have i: "i < length actuals" by (simp split: if_splits)
  with Cons.prems obtain v t1 vs' t2 where
    a: "in_caller_frame caller nf (ev (actuals ! i)) t = Some (Inr (v, t1))"
    and b: "evaluateArguments ev caller nf formals actuals (Suc i) t1 = Some (Inr (vs', t2))"
    and c: "vs = v # vs'" "t' = t2"
    by (auto elim!: bind_returnsE)
  from a have "ev (actuals ! i) t = Some (Inr (v, t1))"
    by (simp add: in_caller_frame_def split: if_splits)
  then have "preserves {} t t1" by (rule pr)
  moreover from Cons.IH [OF b] have "length vs' = length formals" "preserves {} t1 t2"
    by simp_all
  ultimately show ?case using c by (auto intro: preserves_trans)
qed

lemma bindArguments_arguments_first:
  assumes un: "\<And>e t j g. j < length (frames t) \<Longrightarrow> currentFrame t \<noteq> Some j \<Longrightarrow>
                 unaffected j g (ev e) t"
    and pr: "\<And>e t v t'. ev e t = Some (Inr (v, t')) \<Longrightarrow> preserves {} t t'"
    and caller: "caller \<noteq> Some nf"
  shows "nf < length (frames t) \<Longrightarrow> currentFrame t = caller \<Longrightarrow>
         temporaries (frames t ! nf) = Map.empty \<Longrightarrow>
         bindArguments ev nf formals actuals i (with_temporaries nf T t) =
           (case evaluateArguments ev caller nf formals actuals i t of
              None \<Rightarrow> None
            | Some (Inl e) \<Rightarrow> Some (Inl e)
            | Some (Inr (vs, t')) \<Rightarrow>
                Some (Inr ((), with_temporaries nf (bound_formals T formals vs) t')))"
proof (induction formals arbitrary: i t T)
  case Nil
  show ?case by simp
next
  case (Cons formal formals)
  show ?case
  proof (cases "i < length actuals")
    case False
    then show ?thesis by simp
  next
    case True
    let ?a = "actuals ! i"
    let ?G = "(frames t ! nf)\<lparr>temporaries := T\<rparr>"
    have guard: "in_caller_frame caller nf (ev ?a) t = ev ?a t"
      using Cons.prems by (simp add: in_caller_frame_def)
    have "unaffected nf ?G (ev ?a) t"
      using Cons.prems(1,2) caller by (intro un) simp_all
    then have ov: "ev ?a (with_temporaries nf T t) = map_result (overwrite nf ?G) (ev ?a t)"
      by (simp add: unaffected_def with_temporaries_def)
    show ?thesis
    proof (cases "ev ?a t")
      case None
      with ov have "ev ?a (with_temporaries nf T t) = None" by simp
      with None True guard show ?thesis by (simp add: bind_diverges)
    next
      case (Some res)
      show ?thesis
      proof (cases res)
        case (Inl e)
        with Some ov have "ev ?a (with_temporaries nf T t) = Some (Inl e)" by simp
        with Some Inl True guard show ?thesis by (simp add: bind_faults)
      next
        case (Inr vt)
        obtain v t1 where vt: "vt = (v, t1)" by (cases vt)
        with Some Inr have r: "ev ?a t = Some (Inr (v, t1))" by simp
        have p: "preserves {} t t1" using r by (rule pr)
        from p Cons.prems caller have t1: "nf < length (frames t1)" "currentFrame t1 = caller"
          "frames t1 ! nf = frames t ! nf"
          by (simp_all add: preserves_def)
        with Cons.prems(3) have e1: "temporaries (frames t1 ! nf) = Map.empty" by simp
        from r ov t1(3) have r': "ev ?a (with_temporaries nf T t) = Some (Inr (v, with_temporaries nf T t1))"
          by (simp add: with_temporaries_def)
        note rb = bind_returns [where m = "ev ?a" and s = "with_temporaries nf T t", OF r']
        have lhs: "bindArguments ev nf (formal # formals) actuals i (with_temporaries nf T t)
                = bindArguments ev nf formals actuals (Suc i)
                    (with_temporaries nf (T(formal \<mapsto> v)) t1)"
          using True t1(1) by (simp add: rb bind_slot_store)
        note IH = Cons.IH [OF t1(1,2) e1, of "Suc i" "T(formal \<mapsto> v)"]
        have rhs: "evaluateArguments ev caller nf (formal # formals) actuals i t
                = bind (evaluateArguments ev caller nf formals actuals (Suc i))
                    (\<lambda>vs. ret (v # vs)) t1"
          using True guard r
          by (simp add: bind_returns [where m = "in_caller_frame caller nf (ev ?a)" and s = t])
        show ?thesis
          unfolding lhs rhs IH
          by (cases "evaluateArguments ev caller nf formals actuals (Suc i) t1")
             (auto simp: bind_def split: sum.splits)
      qed
    qed
  qed
qed

lemma evaluateCall_arguments_first:
  assumes un: "\<And>e t j g. j < length (frames t) \<Longrightarrow> currentFrame t \<noteq> Some j \<Longrightarrow>
                 unaffected j g (ev e) t"
    and pr: "\<And>e t v t'. ev e t = Some (Inr (v, t')) \<Longrightarrow> preserves {} t t'"
    and cur: "currentFrame s = Some c" "c < length (frames s)"
  shows "evaluateCall ev subroutine actuals s = callArgumentsFirst ev subroutine actuals s"
proof -
  let ?nf = "length (frames s)"
  let ?s0 = "s\<lparr>frames := frames s @ [\<lparr>temporaries = Map.empty, parent = currentFrame s\<rparr>]\<rparr>"
  let ?formals = "arguments subroutine"
  note nfr = bind_returns [where m = newFrame and s = s, OF newFrame_apply]
  have caller: "currentFrame s \<noteq> Some ?nf" using cur by simp
  have s0: "?nf < length (frames ?s0)" "currentFrame ?s0 = currentFrame s"
    "temporaries (frames ?s0 ! ?nf) = Map.empty"
    by simp_all
  have same: "with_temporaries ?nf Map.empty ?s0 = ?s0"
    using s0(1,3) by (rule with_temporaries_same)
  from bindArguments_arguments_first [where ev = ev and formals = "?formals"
      and actuals = actuals and i = 0 and T = Map.empty, OF un pr caller s0]
  have args: "bindArguments ev ?nf ?formals actuals 0 ?s0 =
           (case evaluateArguments ev (currentFrame s) ?nf ?formals actuals 0 ?s0 of
              None \<Rightarrow> None
            | Some (Inl e) \<Rightarrow> Some (Inl e)
            | Some (Inr (vs, t')) \<Rightarrow>
                Some (Inr ((), with_temporaries ?nf (bound_formals Map.empty ?formals vs) t')))"
    unfolding same by simp
  show ?thesis
  proof (cases "evaluateArguments ev (currentFrame s) ?nf ?formals actuals 0 ?s0")
    case None
    with args have "bindArguments ev ?nf ?formals actuals 0 ?s0 = None" by simp
    with None show ?thesis
      by (simp add: evaluateCall_def callArgumentsFirst_def nfr bind_diverges)
  next
    case (Some res)
    show ?thesis
    proof (cases res)
      case (Inl e)
      with Some args have "bindArguments ev ?nf ?formals actuals 0 ?s0 = Some (Inl e)" by simp
      with Some Inl show ?thesis
        by (simp add: evaluateCall_def callArgumentsFirst_def nfr bind_faults)
    next
      case (Inr vt)
      obtain vs t' where vt: "vt = (vs, t')" by (cases vt)
      with Some Inr have ea: "evaluateArguments ev (currentFrame s) ?nf ?formals actuals 0 ?s0
           = Some (Inr (vs, t'))"
        by simp
      from evaluateArguments_returnsD [OF pr ea] have len: "length vs = length ?formals"
        and p: "preserves {} ?s0 t'"
        by simp_all
      from p caller have t': "?nf < length (frames t')" "frames t' ! ?nf = frames ?s0 ! ?nf"
        by (simp_all add: preserves_def)
      then have e: "temporaries (frames t' ! ?nf) = Map.empty" by simp
      let ?t1 = "with_temporaries ?nf (bound_formals Map.empty ?formals vs) t'"
      from args ea have ba: "bindArguments ev ?nf ?formals actuals 0 ?s0 = Some (Inr ((), ?t1))"
        by simp
      from bindFormals_result [OF t'(1) len] e
      have bf: "bindFormals ?nf ?formals vs t' = Some (Inr ((), ?t1))" by simp
      note b1 = bind_returns [where m = "bindArguments ev ?nf ?formals actuals 0" and s = ?s0, OF ba]
      note b2 = bind_returns [where m = "evaluateArguments ev (currentFrame s) ?nf ?formals actuals 0"
          and s = ?s0, OF ea]
      note b3 = bind_returns [where m = "bindFormals ?nf ?formals vs" and s = t', OF bf]
      show ?thesis
        by (simp add: evaluateCall_def callArgumentsFirst_def nfr b1 b2 b3)
    qed
  qed
qed

text \<open>
  C5. In a valid current frame, evaluating a call expression is the same
  computation (same value, same resulting state, same fault, same failure to
  return) as the call described by \<open>callArgumentsFirst\<close>: all argument
  expressions are evaluated before anything is bound, in the order of the
  subroutine's formal parameters, each one after the previous one has
  returned, each one with the caller's frame current and with no binding in
  the new frame; only then are the formal parameters bound and does the new
  frame become current. So no argument evaluation observes a binding of the
  callee's frame.
\<close>

theorem call_arguments_first:
  assumes "currentFrame s = Some c" "c < length (frames s)"
  shows "evaluate model (Suc n) (CallExpression f actuals) s
           = callArgumentsFirst (evaluate model n) (model f) actuals s"
proof -
  have "evaluateCall (evaluate model n) (model f) actuals s
          = callArgumentsFirst (evaluate model n) (model f) actuals s"
    using assms
    by (intro evaluateCall_arguments_first evaluate_unaffected) (auto intro: evaluate_preserves)
  then show ?thesis by simp
qed

theorem call_arguments_first_witness:
  "evaluate (\<lambda>f. \<lparr>arguments = [Suc 0], body = StatementList [ReturnStatement (Variable (Suc 0))]\<rparr>)
     (Suc (Suc (Suc (Suc 0))))
     (CallExpression 0 [Literal (Integer (SVInt False [L1, L0, L1]))])
     ConstantEvaluator_new
   = callArgumentsFirst
       (evaluate (\<lambda>f. \<lparr>arguments = [Suc 0],
                        body = StatementList [ReturnStatement (Variable (Suc 0))]\<rparr>)
          (Suc (Suc (Suc 0))))
       \<lparr>arguments = [Suc 0], body = StatementList [ReturnStatement (Variable (Suc 0))]\<rparr>
       [Literal (Integer (SVInt False [L1, L0, L1]))]
       ConstantEvaluator_new
   \<and> callArgumentsFirst
       (evaluate (\<lambda>f. \<lparr>arguments = [Suc 0],
                        body = StatementList [ReturnStatement (Variable (Suc 0))]\<rparr>)
          (Suc (Suc (Suc 0))))
       \<lparr>arguments = [Suc 0], body = StatementList [ReturnStatement (Variable (Suc 0))]\<rparr>
       [Literal (Integer (SVInt False [L1, L0, L1]))]
       ConstantEvaluator_new
     = Some (Inr (Integer (SVInt False [L1, L0, L1]), ConstantEvaluator_new))"
proof -
  let ?m = "\<lambda>f::nat. \<lparr>arguments = [Suc 0], body = StatementList [ReturnStatement (Variable (Suc 0))]\<rparr>"
  have h: "currentFrame ConstantEvaluator_new = Some 0"
    "0 < length (frames ConstantEvaluator_new)"
    by (simp_all add: ConstantEvaluator_new_def)
  have a: "evaluate ?m (Suc (Suc (Suc (Suc 0))))
     (CallExpression 0 [Literal (Integer (SVInt False [L1, L0, L1]))]) ConstantEvaluator_new
   = callArgumentsFirst (evaluate ?m (Suc (Suc (Suc 0)))) (?m 0)
       [Literal (Integer (SVInt False [L1, L0, L1]))] ConstantEvaluator_new"
    using h by (rule call_arguments_first)
  have b: "callArgumentsFirst (evaluate ?m (Suc (Suc (Suc 0))))
       \<lparr>arguments = [Suc 0], body = StatementList [ReturnStatement (Variable (Suc 0))]\<rparr>
       [Literal (Integer (SVInt False [L1, L0, L1]))] ConstantEvaluator_new
     = Some (Inr (Integer (SVInt False [L1, L0, L1]), ConstantEvaluator_new))"
    by (simp add: callArgumentsFirst_def ConstantEvaluator_new_def newFrame_def bind_def
          in_caller_frame_def evaluateLiteral_def subscript_def store_def assign_def
          setCurrentFrame_def evaluateStatementList_def evaluateReturn_def
          evaluateVariable_def currentSlot_def load_def getParent_def destroyFrame_def)
  from a b show ?thesis by simp
qed

end
